theory Spec2Isabelle
  imports Main "HOL-Library.AList"
begin

section \<open>The tic-tac-toe server of \<^verbatim>\<open>server.js\<close>\<close>

text \<open>
  The server keeps two process-wide maps, \<^verbatim>\<open>rooms\<close> (room code to room) and
  \<^verbatim>\<open>players\<close> (socket id to the room code and name of the connection), and one
  \<^verbatim>\<open>TicTacToeGame\<close> object per room. Socket ids, room codes, names and markers are
  JavaScript strings. A JavaScript string is a sequence of 16-bit code units; every string
  literal of the source, and every room code it can generate, has its code units below
  256, and the server never looks inside a name or a socket id, so strings are modelled
  as \<^typ>\<open>string\<close> with one \<^typ>\<open>char\<close> per code unit.

  Every handler runs to completion before the next event is looked at, so a handler is a
  function from the state before to the state after. A handler that dereferences
  \<^verbatim>\<open>undefined\<close> throws a \<^verbatim>\<open>TypeError\<close>; no handler catches one, so a
  throw is a result of its own.
\<close>

datatype error = TypeError

subsection \<open>Room codes\<close>

text \<open>
  \<^verbatim>\<open>Math.random().toString(36).substring(2, 8).toUpperCase()\<close>.
  The random draw is a double in \<open>[0, 1)\<close>; its rendering in radix 36 is taken as the
  input \<open>r\<close> of the model: it is \<^verbatim>\<open>0\<close> for the draw 0 and otherwise
  \<^verbatim>\<open>0.\<close> followed by the digits (\<^verbatim>\<open>0-9a-z\<close>) of the fraction, as many as
  the double needs: the draw \<open>1/2\<close> is rendered \<^verbatim>\<open>0.i\<close>, since \<open>18/36 = 1/2\<close>.
\<close>

text \<open>\<^verbatim>\<open>s.substring(a, b)\<close>: both indices are clamped to the length and swapped
  when \<open>a > b\<close>.\<close>

definition substring :: "nat \<Rightarrow> nat \<Rightarrow> string \<Rightarrow> string" where
  "substring a b s =
     (let a' = min a (length s); b' = min b (length s);
          lo = min a' b'; hi = max a' b'
      in take (hi - lo) (drop lo s))"

text \<open>\<^verbatim>\<open>toUpperCase\<close> on the characters a rendering in radix 36 can hold: the
  letters \<^verbatim>\<open>a-z\<close> move to \<^verbatim>\<open>A-Z\<close>, digits and the point stay.\<close>

definition upper_char :: "char \<Rightarrow> char" where
  "upper_char c =
     (case map_of (zip ''abcdefghijklmnopqrstuvwxyz'' ''ABCDEFGHIJKLMNOPQRSTUVWXYZ'') c of
        Some u \<Rightarrow> u
      | None \<Rightarrow> c)"

definition toUpperCase :: "string \<Rightarrow> string" where
  "toUpperCase s = map upper_char s"

definition generateRoomCode :: "string \<Rightarrow> string" where
  "generateRoomCode r = toUpperCase (substring 2 8 r)"

text \<open>The characters of a code as the specification describes them: upper-case letters
  and digits.\<close>

definition upper_alnum :: "char \<Rightarrow> bool" where
  "upper_alnum c = (c \<in> set ''0123456789ABCDEFGHIJKLMNOPQRSTUVWXYZ'')"

text \<open>The renderings of the draws in \<open>[0, 1)\<close>: \<^verbatim>\<open>0\<close>, or \<^verbatim>\<open>0.\<close> and at
  least one digit of radix 36.\<close>

definition digit36 :: "char \<Rightarrow> bool" where
  "digit36 c = (c \<in> set ''0123456789abcdefghijklmnopqrstuvwxyz'')"

definition rendering :: "string \<Rightarrow> bool" where
  "rendering r =
     (r = ''0'' \<or>
      (take 2 r = ''0.'' \<and> drop 2 r \<noteq> [] \<and> list_all digit36 (drop 2 r)))"

subsection \<open>The game: class \<^verbatim>\<open>TicTacToeGame\<close>\<close>

text \<open>
  One entry of \<^verbatim>\<open>game.players\<close>: \<^verbatim>\<open>{name, symbol, isHost}\<close> (the field
  \<^verbatim>\<open>name\<close> is called \<open>pname\<close> here).
\<close>

record player =
  pname :: string
  symbol :: string
  isHost :: bool

text \<open>
  The fields of a game. \<^verbatim>\<open>players\<close> is a plain JavaScript object keyed by socket
  id. Its own properties are kept as an association list in the order they were created:
  an assignment is \<^const>\<open>AList.update\<close> (in place for a key that is there, at the end
  for a new one), so the keys stay distinct. \<^verbatim>\<open>winner\<close> is \<^verbatim>\<open>null\<close>
  (\<^const>\<open>None\<close>), a marker or \<^verbatim>\<open>'draw'\<close>.
\<close>

record TicTacToeGame =
  board :: "string list"
  currentPlayer :: string
  players :: "(string \<times> player) list"
  gameActive :: bool
  winner :: "string option"

text \<open>
  A read \<^verbatim>\<open>players[k]\<close> finds the own property \<open>k\<close>, or else what every plain
  object inherits from \<^verbatim>\<open>Object.prototype\<close>, or else \<^verbatim>\<open>undefined\<close>. The
  inherited values are functions (and, for \<^verbatim>\<open>__proto__\<close>, the prototype itself):
  none has a property \<^verbatim>\<open>symbol\<close>, and their property \<^verbatim>\<open>name\<close> is listed
  beside them (\<^const>\<open>None\<close> where it is \<^verbatim>\<open>undefined\<close>).
\<close>

definition object_prototype :: "(string \<times> string option) list" where
  "object_prototype =
     [(''constructor'', Some ''Object''),
      (''__defineGetter__'', Some ''__defineGetter__''),
      (''__defineSetter__'', Some ''__defineSetter__''),
      (''hasOwnProperty'', Some ''hasOwnProperty''),
      (''__lookupGetter__'', Some ''__lookupGetter__''),
      (''__lookupSetter__'', Some ''__lookupSetter__''),
      (''isPrototypeOf'', Some ''isPrototypeOf''),
      (''propertyIsEnumerable'', Some ''propertyIsEnumerable''),
      (''toString'', Some ''toString''),
      (''valueOf'', Some ''valueOf''),
      (''__proto__'', None),
      (''toLocaleString'', Some ''toLocaleString'')]"

datatype entry = Own player | Inherited "string option" | Missing

definition player_entry :: "(string \<times> player) list \<Rightarrow> string \<Rightarrow> entry" where
  "player_entry ps k =
     (case map_of ps k of
        Some p \<Rightarrow> Own p
      | None \<Rightarrow>
          (case map_of object_prototype k of
             Some n \<Rightarrow> Inherited n
           | None \<Rightarrow> Missing))"

text \<open>The constructor.\<close>

definition new_game :: TicTacToeGame where
  "new_game =
     \<lparr>board = replicate 9 '''', currentPlayer = ''X'', players = [],
      gameActive = False, winner = None\<rparr>"

text \<open>
  \<^verbatim>\<open>this.board[i]\<close>: the cell, or \<^verbatim>\<open>undefined\<close> (\<^const>\<open>None\<close>) for an index
  that is not one of the array. The index of a move comes from the client; it is modelled
  as an integer.
\<close>

definition cell_at :: "string list \<Rightarrow> nat \<Rightarrow> string option" where
  "cell_at b a = (if a < length b then Some (b ! a) else None)"

definition board_at :: "string list \<Rightarrow> int \<Rightarrow> string option" where
  "board_at b i = (if 0 \<le> i then cell_at b (nat i) else None)"

definition winPatterns :: "(nat \<times> nat \<times> nat) list" where
  "winPatterns =
     [(0, 1, 2), (3, 4, 5), (6, 7, 8),
      (0, 3, 6), (1, 4, 7), (2, 5, 8),
      (0, 4, 8), (2, 4, 6)]"

text \<open>
  One pattern of \<^verbatim>\<open>checkWinner\<close>:
  \<^verbatim>\<open>board[a] && board[a] === board[b] && board[a] === board[c]\<close>.
  \<^verbatim>\<open>undefined\<close> and the empty string are falsy.
\<close>

definition holds_line :: "string list \<Rightarrow> nat \<times> nat \<times> nat \<Rightarrow> bool" where
  "holds_line bd p =
     (case p of (a, b, c) \<Rightarrow>
        (case cell_at bd a of
           None \<Rightarrow> False
         | Some x \<Rightarrow> x \<noteq> '''' \<and> cell_at bd b = Some x \<and> cell_at bd c = Some x))"

definition checkWinner :: "string list \<Rightarrow> bool" where
  "checkWinner bd = list_ex (holds_line bd) winPatterns"

text \<open>\<^verbatim>\<open>this.currentPlayer === 'X' ? 'O' : 'X'\<close>\<close>

definition other_player :: "string \<Rightarrow> string" where
  "other_player s = (if s = ''X'' then ''O'' else ''X'')"

text \<open>
  \<^verbatim>\<open>makeMove(index, playerId)\<close>. The result is the returned boolean and the game
  after the call, or the \<^verbatim>\<open>TypeError\<close> of \<^verbatim>\<open>this.players[playerId].symbol\<close>
  when \<^verbatim>\<open>this.players[playerId]\<close> is \<^verbatim>\<open>undefined\<close>; nothing is written before
  that line. For an inherited value \<^verbatim>\<open>playerSymbol\<close> is \<^verbatim>\<open>undefined\<close>, which
  differs from the turn, a string.
\<close>

definition makeMove :: "TicTacToeGame \<Rightarrow> int \<Rightarrow> string \<Rightarrow> error + (bool \<times> TicTacToeGame)" where
  "makeMove g index playerId =
     (if board_at (board g) index \<noteq> Some '''' \<or> \<not> gameActive g then Inr (False, g)
      else
        (case player_entry (players g) playerId of
           Missing \<Rightarrow> Inl TypeError
         | Inherited n \<Rightarrow> Inr (False, g)
         | Own p \<Rightarrow>
             (let playerSymbol = symbol p in
              if playerSymbol \<noteq> currentPlayer g then Inr (False, g)
              else
                (let g1 = g\<lparr>board := (board g)[nat index := playerSymbol]\<rparr> in
                 if checkWinner (board g1) then
                   Inr (True, g1\<lparr>winner := Some playerSymbol, gameActive := False\<rparr>)
                 else if list_all (\<lambda>cell. cell \<noteq> '''') (board g1) then
                   Inr (True, g1\<lparr>winner := Some ''draw'', gameActive := False\<rparr>)
                 else
                   Inr (True, g1\<lparr>currentPlayer := other_player (currentPlayer g1)\<rparr>)))))"

definition reset :: "TicTacToeGame \<Rightarrow> TicTacToeGame" where
  "reset g =
     g\<lparr>board := replicate 9 '''', currentPlayer := ''X'', gameActive := True,
       winner := None\<rparr>"

text \<open>
  A run of accepted moves: every call returns \<^verbatim>\<open>true\<close>; the result lists the game
  after each call. A call that returns \<^verbatim>\<open>false\<close> or throws ends the run with
  \<^const>\<open>None\<close>.
\<close>

fun play :: "TicTacToeGame \<Rightarrow> (int \<times> string) list \<Rightarrow> TicTacToeGame list option" where
  "play g [] = Some []"
| "play g (m # ms) =
     (case makeMove g (fst m) (snd m) of
        Inr (True, g') \<Rightarrow> map_option ((#) g') (play g' ms)
      | _ \<Rightarrow> None)"

text \<open>The marker of the \<open>j\<close>-th accepted move, counted from 0.\<close>

definition turn_of :: "nat \<Rightarrow> string" where
  "turn_of j = (if even j then ''X'' else ''O'')"

text \<open>A game as the constructor or \<^const>\<open>reset\<close> leaves its board and turn.\<close>

definition fresh :: "TicTacToeGame \<Rightarrow> bool" where
  "fresh g = (board g = replicate 9 '''' \<and> currentPlayer g = ''X'')"

text \<open>A marker \<open>m\<close> stands in the three cells of one of the patterns of the table
  of \<^verbatim>\<open>checkWinner\<close>.\<close>

definition three_equal :: "string list \<Rightarrow> string \<Rightarrow> bool" where
  "three_equal bd m =
     (m \<noteq> '''' \<and> (\<exists>(a, b, c) \<in> set winPatterns. bd ! a = m \<and> bd ! b = m \<and> bd ! c = m))"

text \<open>
  The rule of the game, written from the grid and not from the table of the code: cell
  \<open>3 * r + c\<close> stands in row \<open>r\<close> and column \<open>c\<close> of the three by three grid, and a
  marker wins when it fills one of the three rows, one of the three columns, the diagonal
  of the cells \<open>(k, k)\<close> or the diagonal of the cells \<open>(k, 2 - k)\<close>: eight lines.
\<close>

definition wins :: "string list \<Rightarrow> string \<Rightarrow> bool" where
  "wins bd m =
     (m \<noteq> '''' \<and>
      ((\<exists>r\<in>{0, 1, 2}. \<forall>c\<in>{0, 1, 2}. bd ! (3 * r + c) = m) \<or>
       (\<exists>c\<in>{0, 1, 2}. \<forall>r\<in>{0, 1, 2}. bd ! (3 * r + c) = m) \<or>
       (\<forall>k\<in>{0, 1, 2}. bd ! (3 * k + k) = m) \<or>
       (\<forall>k\<in>{0, 1, 2}. bd ! (3 * k + (2 - k)) = m)))"

text \<open>No cell of the board is empty.\<close>

definition full :: "string list \<Rightarrow> bool" where
  "full bd = (\<forall>c < length bd. bd ! c \<noteq> '''')"

text \<open>
  The games the server can hold: nine cells, the turn is one of the two markers, and a
  line that is filled is filled with the marker whose turn it is (a move that fills a
  line leaves the turn with the mover).
\<close>

definition wf_game :: "TicTacToeGame \<Rightarrow> bool" where
  "wf_game g =
     (length (board g) = 9 \<and>
      (currentPlayer g = ''X'' \<or> currentPlayer g = ''O'') \<and>
      list_all (\<lambda>p. holds_line (board g) p \<longrightarrow> cell_at (board g) (fst p) = Some (currentPlayer g))
        winPatterns)"

subsection \<open>The rooms and the event handlers\<close>

text \<open>
  The value of the map \<^verbatim>\<open>players\<close>: \<^verbatim>\<open>{roomCode, playerName}\<close>; a room:
  \<^verbatim>\<open>{game, players}\<close> (\<open>room_players\<close> here); the two maps of the server
  (\<^verbatim>\<open>players\<close> is \<open>playersMap\<close> here).
\<close>

record playerData =
  roomCode :: string
  playerName :: string

record room =
  game :: TicTacToeGame
  room_players :: "string list"

record server =
  rooms :: "string \<rightharpoonup> room"
  playersMap :: "string \<rightharpoonup> playerData"

definition init :: server where
  "init = \<lparr>rooms = Map.empty, playersMap = Map.empty\<rparr>"

text \<open>
  What a handler emits: \<^verbatim>\<open>socket.emit\<close> (to the connection of the handler),
  \<^verbatim>\<open>io.to(code).emit\<close> (to every connection in the transport's group of the code) and
  \<^verbatim>\<open>socket.to(code).emit\<close> (to that group but the connection of the handler). The
  payload \<^verbatim>\<open>players\<close> of \<^verbatim>\<open>gameState\<close> is the object \<^verbatim>\<open>game.players\<close>,
  given by its own properties.
\<close>

datatype target = ToSocket string | ToRoom string | ToOthers string string

datatype message =
    RoomCreated string string string
  | PlayerJoined string nat
  | ErrorEvent string
  | RoomJoined string string string "string option"
  | OpponentJoined string
  | GameState "string list" string bool "(string \<times> player) list"
  | MoveMade int string "string list" string bool
  | GameOver "string option" "string option" "string list"
  | GameReset "string list" string bool
  | PlayerDisconnected string

type_synonym emission = "target \<times> message"

text \<open>The connections an emission reaches, for the groups \<open>G\<close> the transport holds.\<close>

definition recipients :: "(string \<Rightarrow> string set) \<Rightarrow> target \<Rightarrow> string set" where
  "recipients G t =
     (case t of
        ToSocket s \<Rightarrow> {s}
      | ToRoom c \<Rightarrow> G c
      | ToOthers s c \<Rightarrow> G c - {s})"

text \<open>The two reasons of the \<^verbatim>\<open>error\<close> event, as the source spells them: the
  Portuguese for "room not found", whose tenth code unit is U+00E3 (a with tilde), and
  \<^verbatim>\<open>'Sala cheia'\<close> ("room full").\<close>

definition sala_nao_encontrada :: string where
  "sala_nao_encontrada = ''Sala n'' @ [CHR 0xE3] @ ''o encontrada''"

definition sala_cheia :: string where
  "sala_cheia = ''Sala cheia''"

text \<open>\<^verbatim>\<open>socket.on('createRoom', (playerName) => ...)\<close>; \<open>r\<close> is the rendering of the
  random draw of \<^const>\<open>generateRoomCode\<close>.\<close>

definition createRoom :: "server \<Rightarrow> string \<Rightarrow> string \<Rightarrow> string \<Rightarrow> error + (server \<times> emission list)" where
  "createRoom st sid pn r =
     (let rc = generateRoomCode r;
          g = new_game\<lparr>players :=
                AList.update sid \<lparr>pname = pn, symbol = ''X'', isHost = True\<rparr> (players new_game)\<rparr>
      in Inr (st\<lparr>rooms := (rooms st)(rc \<mapsto> \<lparr>game = g, room_players = [sid]\<rparr>),
                 playersMap := (playersMap st)(sid \<mapsto> \<lparr>roomCode = rc, playerName = pn\<rparr>)\<rparr>,
              [(ToSocket sid, RoomCreated rc ''X'' pn),
               (ToRoom rc, PlayerJoined pn 1)]))"

text \<open>\<^verbatim>\<open>socket.on('joinRoom', ({ roomCode, playerName }) => ...)\<close>. The name of the
  opponent is read from \<^verbatim>\<open>room.game.players[room.players[0]]\<close> after the room has
  been written; it is \<^const>\<open>None\<close> when the value read has no \<^verbatim>\<open>name\<close>. The
  transport draws the socket ids; the assignment \<^verbatim>\<open>players[socket.id] = ...\<close> of
  this handler and of the one above creates or replaces an own property for every key but
  \<^verbatim>\<open>__proto__\<close>, which is no socket id and is left out here.\<close>

definition joinRoom :: "server \<Rightarrow> string \<Rightarrow> string \<Rightarrow> string \<Rightarrow> error + (server \<times> emission list)" where
  "joinRoom st sid rc pn =
     (case rooms st rc of
        None \<Rightarrow> Inr (st, [(ToSocket sid, ErrorEvent sala_nao_encontrada)])
      | Some rm \<Rightarrow>
          if length (room_players rm) \<ge> 2 then
            Inr (st, [(ToSocket sid, ErrorEvent sala_cheia)])
          else
            (let g1 = (game rm)\<lparr>players :=
                        AList.update sid \<lparr>pname = pn, symbol = ''O'', isHost = False\<rparr>
                          (players (game rm))\<rparr>;
                 ps = room_players rm @ [sid];
                 g2 = g1\<lparr>gameActive := True\<rparr>;
                 st' = st\<lparr>rooms := (rooms st)(rc \<mapsto> \<lparr>game = g2, room_players = ps\<rparr>),
                          playersMap := (playersMap st)(sid \<mapsto> \<lparr>roomCode = rc, playerName = pn\<rparr>)\<rparr>;
                 joined = (\<lambda>opponentName.
                      [(ToSocket sid, RoomJoined rc ''O'' pn opponentName),
                       (ToOthers sid rc, OpponentJoined pn),
                       (ToRoom rc, GameState (board g2) (currentPlayer g2) (gameActive g2) (players g2))])
             in case player_entry (players g2) (ps ! 0) of
                  Missing \<Rightarrow> Inl TypeError
                | Inherited n \<Rightarrow> Inr (st', joined n)
                | Own host \<Rightarrow> Inr (st', joined (Some (pname host)))))"

text \<open>
  \<^verbatim>\<open>Object.keys\<close> lists the own keys that are array indices (the decimal numerals
  of the integers from 0 to \<open>2\<^sup>3\<^sup>2 - 2\<close>, without leading zero) first, in ascending
  order, and then the other keys in the order they were created.
\<close>

definition digit_value :: "char \<Rightarrow> nat option" where
  "digit_value c = map_of (zip ''0123456789'' [0, 1, 2, 3, 4, 5, 6, 7, 8, 9]) c"

fun decimal :: "nat \<Rightarrow> string \<Rightarrow> nat option" where
  "decimal acc [] = Some acc"
| "decimal acc (c # cs) =
     (case digit_value c of
        None \<Rightarrow> None
      | Some d \<Rightarrow> decimal (10 * acc + d) cs)"

definition array_index :: "string \<Rightarrow> nat option" where
  "array_index k =
     (if k = [] \<or> (hd k = CHR ''0'' \<and> tl k \<noteq> []) then None
      else
        (case decimal 0 k of
           None \<Rightarrow> None
         | Some n \<Rightarrow> if n \<le> 4294967294 then Some n else None))"

definition object_keys :: "(string \<times> 'a) list \<Rightarrow> string list" where
  "object_keys ps =
     (let ks = map fst ps in
      sort_key (\<lambda>k. case array_index k of Some n \<Rightarrow> n | None \<Rightarrow> 0)
        (filter (\<lambda>k. array_index k \<noteq> None) ks) @
      filter (\<lambda>k. array_index k = None) ks)"

text \<open>The name reported by \<^verbatim>\<open>gameOver\<close>: the first of \<^verbatim>\<open>Object.keys(game.players)\<close>
  whose symbol is the winner, then the name of its entry; when no key is found,
  \<^verbatim>\<open>find\<close> gives \<^verbatim>\<open>undefined\<close> and the entry read is the one of the key
  \<^verbatim>\<open>'undefined'\<close>. Both reads are at own keys or at \<^verbatim>\<open>'undefined'\<close>, which
  \<^verbatim>\<open>Object.prototype\<close> does not have: they find an own property or nothing.\<close>

definition winnerName :: "TicTacToeGame \<Rightarrow> error + string" where
  "winnerName g =
     (let winnerId =
        (case find (\<lambda>k. case map_of (players g) k of
                           Some p \<Rightarrow> Some (symbol p) = winner g
                         | None \<Rightarrow> False)
                (object_keys (players g)) of
           None \<Rightarrow> ''undefined''
         | Some k \<Rightarrow> k)
      in case map_of (players g) winnerId of
           None \<Rightarrow> Inl TypeError
         | Some p \<Rightarrow> Inr (pname p))"

text \<open>\<^verbatim>\<open>socket.on('makeMove', (index) => ...)\<close>. A call of \<^verbatim>\<open>makeMove\<close>
  that returned \<^verbatim>\<open>true\<close> found the socket id as an own key of
  \<^verbatim>\<open>players\<close>, so the read \<^verbatim>\<open>game.players[socket.id]\<close> after it finds that
  own property.\<close>

definition on_makeMove :: "server \<Rightarrow> string \<Rightarrow> int \<Rightarrow> error + (server \<times> emission list)" where
  "on_makeMove st sid index =
     (case playersMap st sid of
        None \<Rightarrow> Inr (st, [])
      | Some pd \<Rightarrow>
          (case rooms st (roomCode pd) of
             None \<Rightarrow> Inr (st, [])
           | Some rm \<Rightarrow>
               (case makeMove (game rm) index sid of
                  Inl e \<Rightarrow> Inl e
                | Inr (moveSuccess, g) \<Rightarrow>
                    (let st' = st\<lparr>rooms := (rooms st)(roomCode pd \<mapsto> rm\<lparr>game := g\<rparr>)\<rparr> in
                     if \<not> moveSuccess then Inr (st', [])
                     else
                       (case map_of (players g) sid of
                          None \<Rightarrow> Inl TypeError
                        | Some p \<Rightarrow>
                            (let moveMade =
                               (ToRoom (roomCode pd),
                                MoveMade index (symbol p) (board g) (currentPlayer g) (gameActive g))
                             in if gameActive g then Inr (st', [moveMade])
                                else if winner g \<noteq> Some ''draw'' then
                                  (case winnerName g of
                                     Inl e \<Rightarrow> Inl e
                                   | Inr n \<Rightarrow>
                                       Inr (st',
                                         [moveMade,
                                          (ToRoom (roomCode pd), GameOver (winner g) (Some n) (board g))]))
                                else
                                  Inr (st',
                                    [moveMade,
                                     (ToRoom (roomCode pd), GameOver (winner g) None (board g))])))))))"

text \<open>\<^verbatim>\<open>socket.on('resetGame', () => ...)\<close>\<close>

definition resetGame :: "server \<Rightarrow> string \<Rightarrow> error + (server \<times> emission list)" where
  "resetGame st sid =
     (case playersMap st sid of
        None \<Rightarrow> Inr (st, [])
      | Some pd \<Rightarrow>
          (case rooms st (roomCode pd) of
             None \<Rightarrow> Inr (st, [])
           | Some rm \<Rightarrow>
               (let g = reset (game rm) in
                Inr (st\<lparr>rooms := (rooms st)(roomCode pd \<mapsto> rm\<lparr>game := g\<rparr>)\<rparr>,
                     [(ToRoom (roomCode pd), GameReset (board g) (currentPlayer g) (gameActive g))]))))"

text \<open>\<^verbatim>\<open>socket.on('disconnect', () => ...)\<close>\<close>

definition disconnect :: "server \<Rightarrow> string \<Rightarrow> error + (server \<times> emission list)" where
  "disconnect st sid =
     (case playersMap st sid of
        None \<Rightarrow> Inr (st, [])
      | Some pd \<Rightarrow>
          (case rooms st (roomCode pd) of
             None \<Rightarrow> Inr (st\<lparr>playersMap := (playersMap st)(sid := None)\<rparr>, [])
           | Some rm \<Rightarrow>
               (let ps = filter (\<lambda>id. id \<noteq> sid) (room_players rm);
                    rooms' =
                      (if length ps = 0 then (rooms st)(roomCode pd := None)
                       else (rooms st)(roomCode pd \<mapsto>
                              \<lparr>game = (game rm)\<lparr>gameActive := False\<rparr>, room_players = ps\<rparr>))
                in Inr (st\<lparr>rooms := rooms', playersMap := (playersMap st)(sid := None)\<rparr>,
                        [(ToOthers sid (roomCode pd), PlayerDisconnected (playerName pd))]))))"

text \<open>The events a connection can raise, and the server run over a list of them. A
  handler that throws ends the run.\<close>

datatype event =
    CreateRoom string string string
  | JoinRoom string string string
  | MakeMove string int
  | ResetGame string
  | Disconnect string

fun step :: "server \<Rightarrow> event \<Rightarrow> error + (server \<times> emission list)" where
  "step st (CreateRoom sid pn r) = createRoom st sid pn r"
| "step st (JoinRoom sid rc pn) = joinRoom st sid rc pn"
| "step st (MakeMove sid index) = on_makeMove st sid index"
| "step st (ResetGame sid) = resetGame st sid"
| "step st (Disconnect sid) = disconnect st sid"

fun run :: "server \<Rightarrow> event list \<Rightarrow> error + server" where
  "run st [] = Inr st"
| "run st (e # es) =
     (case step st e of
        Inl err \<Rightarrow> Inl err
      | Inr (st', out) \<Rightarrow> run st' es)"

text \<open>
  Conditions on an event, for the state of the server that the event finds, and the runs
  in which every event meets a condition. \<open>reset_in_pair\<close>: a reset-game is asked
  in a room of two entries (or by a connection without a room, where the handler does
  nothing). \<open>join_by_other\<close>: the connection of a join-room that can enter its
  room is no entry of it. \<open>join_unfinished\<close>: a join-room that can enter its room
  finds a game without outcome. \<open>leave_by_member\<close>: the room a closing connection is bound to
  has it among its entries.
\<close>

fun reset_in_pair :: "server \<Rightarrow> event \<Rightarrow> bool" where
  "reset_in_pair st (ResetGame sid) =
     (case playersMap st sid of
        None \<Rightarrow> True
      | Some pd \<Rightarrow>
          (case rooms st (roomCode pd) of
             None \<Rightarrow> True
           | Some rm \<Rightarrow> 2 \<le> length (room_players rm)))"
| "reset_in_pair st e = True"

fun join_by_other :: "server \<Rightarrow> event \<Rightarrow> bool" where
  "join_by_other st (JoinRoom sid rc pn) =
     (case rooms st rc of
        None \<Rightarrow> True
      | Some rm \<Rightarrow> 2 \<le> length (room_players rm) \<or> sid \<notin> set (room_players rm))"
| "join_by_other st e = True"

fun join_unfinished :: "server \<Rightarrow> event \<Rightarrow> bool" where
  "join_unfinished st (JoinRoom sid rc pn) =
     (case rooms st rc of
        None \<Rightarrow> True
      | Some rm \<Rightarrow> 2 \<le> length (room_players rm) \<or> winner (game rm) = None)"
| "join_unfinished st e = True"

fun leave_by_member :: "server \<Rightarrow> event \<Rightarrow> bool" where
  "leave_by_member st (Disconnect sid) =
     (case playersMap st sid of
        None \<Rightarrow> True
      | Some pd \<Rightarrow>
          (case rooms st (roomCode pd) of
             None \<Rightarrow> True
           | Some rm \<Rightarrow> sid \<in> set (room_players rm)))"
| "leave_by_member st e = True"

fun any_event :: "server \<Rightarrow> event \<Rightarrow> bool" where
  "any_event st e = True"

fun run_where :: "(server \<Rightarrow> event \<Rightarrow> bool) \<Rightarrow> server \<Rightarrow> event list \<Rightarrow> bool" where
  "run_where P st [] = True"
| "run_where P st (e # es) =
     (P st e \<and> (case step st e of Inl err \<Rightarrow> True | Inr (st', out) \<Rightarrow> run_where P st' es))"

text \<open>What the handlers emit along a run, in the order of the events, and the departure
  notices among it: \<open>left_notice tr c\<close> says that a notice for the room code \<open>c\<close>
  is in \<open>tr\<close>.\<close>

fun emitted :: "server \<Rightarrow> event list \<Rightarrow> emission list" where
  "emitted st [] = []"
| "emitted st (e # es) =
     (case step st e of
        Inl err \<Rightarrow> []
      | Inr (st', out) \<Rightarrow> out @ emitted st' es)"

definition left_notice :: "emission list \<Rightarrow> string \<Rightarrow> bool" where
  "left_notice tr c = (\<exists>sid n. (ToOthers sid c, PlayerDisconnected n) \<in> set tr)"

subsection \<open>Invariants of the rooms\<close>

text \<open>
  Properties of every room of the registry. \<open>entries_ok\<close>: the room has one or two
  entries. \<open>active_pair\<close>: moreover, when its game is active it has two.
  \<open>entries_distinct\<close>: no connection is entered twice. \<open>active_open\<close>: an
  active game has no outcome. \<open>open_pair_active\<close>: a game without outcome in a room
  of two entries is active.
\<close>

definition rooms_all :: "(room \<Rightarrow> bool) \<Rightarrow> server \<Rightarrow> bool" where
  "rooms_all Q st = (\<forall>c rm. rooms st c = Some rm \<longrightarrow> Q rm)"

definition entries_ok :: "room \<Rightarrow> bool" where
  "entries_ok rm = (1 \<le> length (room_players rm) \<and> length (room_players rm) \<le> 2)"

definition active_pair :: "room \<Rightarrow> bool" where
  "active_pair rm =
     (entries_ok rm \<and> (gameActive (game rm) \<longrightarrow> length (room_players rm) = 2))"

definition entries_distinct :: "room \<Rightarrow> bool" where
  "entries_distinct rm = distinct (room_players rm)"

definition active_open :: "room \<Rightarrow> bool" where
  "active_open rm = (gameActive (game rm) \<longrightarrow> winner (game rm) = None)"

definition open_pair_active :: "room \<Rightarrow> bool" where
  "open_pair_active rm =
     (entries_ok rm \<and>
      (length (room_players rm) = 2 \<and> winner (game rm) = None \<longrightarrow> gameActive (game rm)))"

text \<open>Every room whose game is inactive has fewer than two entries, or its game has an
  outcome, or a departure notice for its code is among the emissions \<open>tr\<close>.\<close>

definition inactive_explained :: "server \<Rightarrow> emission list \<Rightarrow> bool" where
  "inactive_explained st tr =
     (\<forall>c rm. rooms st c = Some rm \<longrightarrow>
        gameActive (game rm) \<or> length (room_players rm) < 2 \<or> winner (game rm) \<noteq> None \<or>
        left_notice tr c)"

text \<open>Every game of the registry is one the server can hold.\<close>

definition games_wf :: "server \<Rightarrow> bool" where
  "games_wf st = (\<forall>c rm. rooms st c = Some rm \<longrightarrow> wf_game (game rm))"

subsection \<open>The groups of the transport\<close>





subsection \<open>Concrete games and server states\<close>

text \<open>Alice (socket \<open>a\<close>) created the room and plays \<open>X\<close>; Bob (socket \<open>b\<close>) joined
  and plays \<open>O\<close>. \<open>started\<close> is their game as the join leaves it.\<close>

definition alice_bob :: "(string \<times> player) list" where
  "alice_bob =
     [(''a'', \<lparr>pname = ''Alice'', symbol = ''X'', isHost = True\<rparr>),
      (''b'', \<lparr>pname = ''Bob'', symbol = ''O'', isHost = False\<rparr>)]"

definition started :: TicTacToeGame where
  "started = new_game\<lparr>players := alice_bob, gameActive := True\<rparr>"

definition snapshot :: "string list \<Rightarrow> string \<Rightarrow> bool \<Rightarrow> string option \<Rightarrow> TicTacToeGame" where
  "snapshot bd t a w =
     \<lparr>board = bd, currentPlayer = t, players = alice_bob, gameActive = a, winner = w\<rparr>"

text \<open>Five accepted moves; the fifth fills the top row for \<open>X\<close>.\<close>

definition five_moves :: "(int \<times> string) list" where
  "five_moves = [(0, ''a''), (3, ''b''), (1, ''a''), (4, ''b''), (2, ''a'')]"

definition five_states :: "TicTacToeGame list" where
  "five_states =
     [snapshot [''X'', '''', '''', '''', '''', '''', '''', '''', ''''] ''O'' True None,
      snapshot [''X'', '''', '''', ''O'', '''', '''', '''', '''', ''''] ''X'' True None,
      snapshot [''X'', ''X'', '''', ''O'', '''', '''', '''', '''', ''''] ''O'' True None,
      snapshot [''X'', ''X'', '''', ''O'', ''O'', '''', '''', '''', ''''] ''X'' True None,
      snapshot [''X'', ''X'', ''X'', ''O'', ''O'', '''', '''', '''', ''''] ''X'' False (Some ''X'')]"

text \<open>Eight cells are taken and no line is filled; \<open>X\<close> at cell 8 fills the board and
  the diagonal 0, 4, 8 at once.\<close>

definition last_cell_game :: TicTacToeGame where
  "last_cell_game = snapshot [''X'', ''O'', ''X'', ''O'', ''X'', ''O'', ''O'', ''X'', ''''] ''X'' True None"

definition last_cell_won :: TicTacToeGame where
  "last_cell_won =
     snapshot [''X'', ''O'', ''X'', ''O'', ''X'', ''O'', ''O'', ''X'', ''X''] ''X'' False (Some ''X'')"

text \<open>The draw \<open>draw1\<close> gives the room code \<open>code1\<close>. \<open>lobby\<close> is the server
  after Alice created the room, \<open>both\<close> after Bob joined, \<open>alone\<close> after Bob left
  again, \<open>lobby_reset\<close> after Alice, alone in her new room, asked for a reset.\<close>

definition draw1 :: string where
  "draw1 = ''0.4fzyo82mvyr''"

definition code1 :: string where
  "code1 = ''4FZYO8''"

definition host_game :: TicTacToeGame where
  "host_game =
     new_game\<lparr>players := [(''a'', \<lparr>pname = ''Alice'', symbol = ''X'', isHost = True\<rparr>)]\<rparr>"

definition alice_data :: playerData where
  "alice_data = \<lparr>roomCode = code1, playerName = ''Alice''\<rparr>"

definition bob_data :: playerData where
  "bob_data = \<lparr>roomCode = code1, playerName = ''Bob''\<rparr>"

definition lobby :: server where
  "lobby =
     \<lparr>rooms = [code1 \<mapsto> \<lparr>game = host_game, room_players = [''a'']\<rparr>],
      playersMap = [''a'' \<mapsto> alice_data]\<rparr>"

definition both :: server where
  "both =
     \<lparr>rooms = [code1 \<mapsto> \<lparr>game = started, room_players = [''a'', ''b'']\<rparr>],
      playersMap = [''a'' \<mapsto> alice_data, ''b'' \<mapsto> bob_data]\<rparr>"

definition alone :: server where
  "alone =
     \<lparr>rooms = [code1 \<mapsto> \<lparr>game = started\<lparr>gameActive := False\<rparr>, room_players = [''a'']\<rparr>],
      playersMap = [''a'' \<mapsto> alice_data]\<rparr>"

definition lobby_reset :: server where
  "lobby_reset =
     \<lparr>rooms = [code1 \<mapsto> \<lparr>game = reset host_game, room_players = [''a'']\<rparr>],
      playersMap = [''a'' \<mapsto> alice_data]\<rparr>"

text \<open>Two connections play in a room; a third connection draws the same room code and a
  fourth joins it; then the first one moves.\<close>

definition collision :: "event list" where
  "collision =
     [CreateRoom ''a'' ''Alice'' draw1, JoinRoom ''b'' code1 ''Bob'',
      CreateRoom ''c'' ''Carol'' draw1, JoinRoom ''d'' code1 ''Dave'',
      MakeMove ''a'' 0]"

definition collision_leave :: "event list" where
  "collision_leave =
     [CreateRoom ''a'' ''Alice'' draw1, JoinRoom ''b'' code1 ''Bob'',
      CreateRoom ''c'' ''Carol'' draw1, JoinRoom ''d'' code1 ''Dave'']"


text \<open>A game is won, the loser leaves, and a third connection joins the room.\<close>

definition rejoin :: "event list" where
  "rejoin =
     [CreateRoom ''a'' ''Alice'' draw1, JoinRoom ''b'' code1 ''Bob'',
      MakeMove ''a'' 0, MakeMove ''b'' 3, MakeMove ''a'' 1, MakeMove ''b'' 4, MakeMove ''a'' 2,
      Disconnect ''b'', JoinRoom ''c'' code1 ''Carol'']"

text \<open>A game is begun, Bob leaves, Carol joins, Alice wins, and Carol asks for a new
  game. \<open>rematch_state\<close> is the server after these events.\<close>

definition rematch :: "event list" where
  "rematch =
     [CreateRoom ''a'' ''Alice'' draw1, JoinRoom ''b'' code1 ''Bob'', MakeMove ''a'' 0,
      Disconnect ''b'', JoinRoom ''c'' code1 ''Carol'',
      MakeMove ''c'' 3, MakeMove ''a'' 1, MakeMove ''c'' 4, MakeMove ''a'' 2,
      ResetGame ''c'']"

definition rematch_room :: room where
  "rematch_room =
     \<lparr>game = \<lparr>board = replicate 9 '''', currentPlayer = ''X'',
               players = alice_bob @ [(''c'', \<lparr>pname = ''Carol'', symbol = ''O'', isHost = False\<rparr>)],
               gameActive = True, winner = None\<rparr>,
      room_players = [''a'', ''c'']\<rparr>"

definition rematch_state :: server where
  "rematch_state =
     \<lparr>rooms = [code1 \<mapsto> rematch_room],
      playersMap = [''a'' \<mapsto> alice_data, ''c'' \<mapsto> \<lparr>roomCode = code1, playerName = ''Carol''\<rparr>]\<rparr>"

text \<open>Alice and Bob begin a game and Bob leaves.\<close>

definition parted :: "event list" where
  "parted =
     [CreateRoom ''a'' ''Alice'' draw1, JoinRoom ''b'' code1 ''Bob'', Disconnect ''b'']"

text \<open>Alice creates a room and joins it herself.\<close>

definition self_join :: "event list" where
  "self_join = [CreateRoom ''a'' ''Alice'' draw1, JoinRoom ''a'' code1 ''Alice'']"






section \<open>Properties of the game\<close>

subsection \<open>What a call of \<^verbatim>\<open>makeMove\<close> does\<close>

lemma player_entry_Own [simp]:
  "player_entry ps k = Own p \<longleftrightarrow> map_of ps k = Some p"
  by (simp add: player_entry_def split: option.splits)

lemma player_entry_Inherited:
  "player_entry ps k = Inherited n \<longleftrightarrow> map_of ps k = None \<and> map_of object_prototype k = Some n"
  by (simp add: player_entry_def split: option.splits)

lemma player_entry_Missing:
  "player_entry ps k = Missing \<longleftrightarrow> map_of ps k = None \<and> map_of object_prototype k = None"
  by (simp add: player_entry_def split: option.splits)

lemma makeMove_accepted:
  assumes "makeMove g i pid = Inr (True, g')"
  shows "gameActive g" and "board_at (board g) i = Some ''''"
    and "\<exists>p. map_of (players g) pid = Some p \<and> symbol p = currentPlayer g"
    and "board g' = (board g)[nat i := currentPlayer g]"
    and "players g' = players g"
    and "checkWinner (board g') \<Longrightarrow>
           winner g' = Some (currentPlayer g) \<and> \<not> gameActive g' \<and> currentPlayer g' = currentPlayer g"
    and "\<not> checkWinner (board g') \<Longrightarrow> list_all (\<lambda>c. c \<noteq> '''') (board g') \<Longrightarrow>
           winner g' = Some ''draw'' \<and> \<not> gameActive g' \<and> currentPlayer g' = currentPlayer g"
    and "\<not> checkWinner (board g') \<Longrightarrow> \<not> list_all (\<lambda>c. c \<noteq> '''') (board g') \<Longrightarrow>
           winner g' = winner g \<and> gameActive g' \<and> currentPlayer g' = other_player (currentPlayer g)"
  using assms
  by (auto simp: makeMove_def Let_def split: if_splits entry.splits)

lemma makeMove_accepts_iff:
  "(\<exists>g'. makeMove g i pid = Inr (True, g')) \<longleftrightarrow>
     gameActive g \<and> board_at (board g) i = Some '''' \<and>
     (\<exists>p. map_of (players g) pid = Some p \<and> symbol p = currentPlayer g)"
proof
  assume "\<exists>g'. makeMove g i pid = Inr (True, g')"
  then obtain g' where mv: "makeMove g i pid = Inr (True, g')" ..
  from makeMove_accepted(1,2,3)[OF mv]
  show "gameActive g \<and> board_at (board g) i = Some '''' \<and>
     (\<exists>p. map_of (players g) pid = Some p \<and> symbol p = currentPlayer g)"
    by (intro conjI)
next
  assume "gameActive g \<and> board_at (board g) i = Some '''' \<and>
     (\<exists>p. map_of (players g) pid = Some p \<and> symbol p = currentPlayer g)"
  then show "\<exists>g'. makeMove g i pid = Inr (True, g')"
    by (auto simp: makeMove_def player_entry_def Let_def)
qed

lemma makeMove_false_unchanged:
  assumes "makeMove g i pid = Inr (False, g')"
  shows "g' = g"
  using assms
  by (auto simp: makeMove_def Let_def split: if_splits entry.splits)

lemma makeMove_active:
  assumes "makeMove g i pid = Inr (ok, g')" and "gameActive g'"
  shows "gameActive g"
  using assms
  by (auto simp: makeMove_def Let_def split: if_splits entry.splits)

lemma makeMove_throws_iff:
  "makeMove g i pid = Inl e \<longleftrightarrow>
     gameActive g \<and> board_at (board g) i = Some '''' \<and> player_entry (players g) pid = Missing"
  by (cases e; cases "player_entry (players g) pid")
    (auto simp: makeMove_def Let_def simp del: player_entry_Own)

lemma board_at_Some:
  "board_at bd i = Some x \<longleftrightarrow> 0 \<le> i \<and> nat i < length bd \<and> bd ! nat i = x"
  by (auto simp: board_at_def cell_at_def)

lemma accepted_turn:
  assumes "makeMove g i pid = Inr (True, g')"
  shows "currentPlayer g' = (if gameActive g' then other_player (currentPlayer g) else currentPlayer g)"
  using makeMove_accepted(6,7,8)[OF assms]
  by (cases "checkWinner (board g')"; cases "list_all (\<lambda>c. c \<noteq> '''') (board g')") auto

lemma accepted_keeps_cell:
  assumes "makeMove g i pid = Inr (True, g')" and "cell_at (board g) c = Some x" and "x \<noteq> ''''"
  shows "cell_at (board g') c = Some x"
proof -
  from makeMove_accepted(2)[OF assms(1)] have "board g ! nat i = ''''"
    by (simp add: board_at_Some)
  with assms(2,3) have "c \<noteq> nat i"
    by (auto simp: cell_at_def split: if_splits)
  with makeMove_accepted(4)[OF assms(1)] assms(2) show ?thesis
    by (auto simp: cell_at_def split: if_splits)
qed

subsection \<open>The eight lines\<close>

text \<open>The patterns are the three rows, the three columns and the two diagonals of the
  board, cell \<open>3 * r + c\<close> standing in row \<open>r\<close> and column \<open>c\<close>.\<close>

lemma set_winPatterns:
  "set winPatterns =
     (\<lambda>r. (3 * r, 3 * r + 1, 3 * r + 2)) ` {0, 1, 2} \<union>
     (\<lambda>c. (c, c + 3, c + 6)) ` {0, 1, 2} \<union>
     {(0, 4, 8), (2, 4, 6)}"
  by (simp add: winPatterns_def insert_commute numeral_2_eq_2)

lemma winPatterns_bound:
  "(a, b, c) \<in> set winPatterns \<Longrightarrow> a < 9 \<and> b < 9 \<and> c < 9"
  by (auto simp: winPatterns_def)

lemma holds_line_iff:
  "a < length bd \<Longrightarrow> b < length bd \<Longrightarrow> c < length bd \<Longrightarrow>
   holds_line bd (a, b, c) \<longleftrightarrow> bd ! a \<noteq> '''' \<and> bd ! b = bd ! a \<and> bd ! c = bd ! a"
  by (auto simp: holds_line_def cell_at_def)

lemma checkWinner_iff:
  assumes "length bd = 9"
  shows "checkWinner bd \<longleftrightarrow> (\<exists>m. three_equal bd m)"
proof
  assume "checkWinner bd"
  then obtain p where p: "p \<in> set winPatterns" "holds_line bd p"
    by (auto simp: checkWinner_def list_ex_iff)
  obtain a b c where abc: "p = (a, b, c)" by (cases p) auto
  with p winPatterns_bound assms have "a < length bd" "b < length bd" "c < length bd"
    by auto
  with p abc have "bd ! a \<noteq> ''''" "bd ! b = bd ! a" "bd ! c = bd ! a"
    by (simp_all add: holds_line_iff)
  with p abc have "three_equal bd (bd ! a)"
    unfolding three_equal_def by auto
  then show "\<exists>m. three_equal bd m" ..
next
  assume "\<exists>m. three_equal bd m"
  then obtain m a b c where m: "m \<noteq> ''''" "(a, b, c) \<in> set winPatterns"
      "bd ! a = m" "bd ! b = m" "bd ! c = m"
    unfolding three_equal_def by auto
  with winPatterns_bound assms have "a < length bd" "b < length bd" "c < length bd"
    by auto
  with m have "holds_line bd (a, b, c)"
    by (simp add: holds_line_iff)
  with m show "checkWinner bd"
    by (auto simp: checkWinner_def list_ex_iff)
qed

lemma full_iff: "list_all (\<lambda>c. c \<noteq> '''') bd \<longleftrightarrow> full bd"
  by (simp add: full_def list_all_length)

subsection \<open>The games the server can hold\<close>

lemma wf_game_iff:
  "wf_game g \<longleftrightarrow>
     length (board g) = 9 \<and> (currentPlayer g = ''X'' \<or> currentPlayer g = ''O'') \<and>
     (\<forall>p \<in> set winPatterns. holds_line (board g) p \<longrightarrow> cell_at (board g) (fst p) = Some (currentPlayer g))"
  by (simp add: wf_game_def list_all_iff)

lemma holds_line_update:
  assumes "i < length bd" and "bd ! i = ''''" and "holds_line (bd[i := m]) (a, b, c)"
  shows "holds_line bd (a, b, c) \<and> a \<noteq> i \<or> cell_at (bd[i := m]) a = Some m"
proof (cases "a = i \<or> b = i \<or> c = i")
  case True
  with assms show ?thesis
    by (auto simp: holds_line_def cell_at_def split: if_splits)
next
  case False
  with assms have "holds_line bd (a, b, c)"
    by (auto simp: holds_line_def cell_at_def split: if_splits)
  with False show ?thesis by simp
qed

lemma lines_after_move:
  assumes wf: "wf_game g" and i: "board_at (board g) i = Some ''''"
    and p: "p \<in> set winPatterns"
    and h: "holds_line ((board g)[nat i := currentPlayer g]) p"
  shows "cell_at ((board g)[nat i := currentPlayer g]) (fst p) = Some (currentPlayer g)"
proof -
  obtain a b c where abc: "p = (a, b, c)" by (cases p) auto
  from i have i': "nat i < length (board g)" "board g ! nat i = ''''"
    by (simp_all add: board_at_Some)
  from holds_line_update[OF i' h[unfolded abc]]
  show ?thesis
  proof
    assume old: "holds_line (board g) (a, b, c) \<and> a \<noteq> nat i"
    with wf p abc have "cell_at (board g) a = Some (currentPlayer g)"
      by (auto simp: wf_game_iff)
    with old abc show ?thesis
      by (auto simp: cell_at_def split: if_splits)
  next
    assume "cell_at ((board g)[nat i := currentPlayer g]) a = Some (currentPlayer g)"
    with abc show ?thesis by simp
  qed
qed

lemma other_player_cases: "other_player s = ''X'' \<or> other_player s = ''O''"
  by (simp add: other_player_def)

lemma wf_game_makeMove:
  assumes wf: "wf_game g" and mv: "makeMove g i pid = Inr (ok, g')"
  shows "wf_game g'"
proof (cases ok)
  case False
  with mv have "g' = g" by (simp add: makeMove_false_unchanged)
  with wf show ?thesis by simp
next
  case True
  with mv have mv': "makeMove g i pid = Inr (True, g')" by simp
  note acc = makeMove_accepted[OF mv']
  have len: "length (board g') = 9"
    using wf acc(4) by (simp add: wf_game_iff)
  have lines: "\<forall>p \<in> set winPatterns. holds_line (board g') p \<longrightarrow>
      cell_at (board g') (fst p) = Some (currentPlayer g)"
    using lines_after_move[OF wf acc(2)] acc(4) by simp
  show ?thesis
  proof (cases "checkWinner (board g')")
    case True
    with acc(6) have "currentPlayer g' = currentPlayer g" by simp
    with wf len lines show ?thesis by (simp add: wf_game_iff)
  next
    case False
    then have none: "\<forall>p \<in> set winPatterns. \<not> holds_line (board g') p"
      by (simp add: checkWinner_def list_ex_iff)
    have "currentPlayer g' = ''X'' \<or> currentPlayer g' = ''O''"
      using acc(7,8)[OF False] wf other_player_cases[of "currentPlayer g"]
      by (cases "list_all (\<lambda>c. c \<noteq> '''') (board g')") (auto simp: wf_game_iff)
    with len none show ?thesis by (simp add: wf_game_iff)
  qed
qed

lemma wf_game_new: "wf_game (new_game\<lparr>players := ps, gameActive := a\<rparr>)"
  by (simp add: wf_game_def new_game_def winPatterns_def holds_line_def cell_at_def)

lemma wf_game_reset: "wf_game (reset g)"
  by (simp add: wf_game_def reset_def winPatterns_def holds_line_def cell_at_def)

lemma wf_game_fields:
  "wf_game (g\<lparr>players := ps\<rparr>) = wf_game g" "wf_game (g\<lparr>gameActive := a\<rparr>) = wf_game g"
  by (simp_all add: wf_game_def)

lemma three_equal_mover:
  assumes wf: "wf_game g" and mv: "makeMove g i pid = Inr (True, g')"
    and te: "three_equal (board g') m"
  shows "m = currentPlayer g"
proof -
  note acc = makeMove_accepted[OF mv]
  have len: "length (board g') = 9"
    using wf acc(4) by (simp add: wf_game_iff)
  from te obtain a b c where m: "m \<noteq> ''''" "(a, b, c) \<in> set winPatterns"
      "board g' ! a = m" "board g' ! b = m" "board g' ! c = m"
    unfolding three_equal_def by auto
  with winPatterns_bound len have bnd: "a < length (board g')" "b < length (board g')"
      "c < length (board g')"
    by auto
  with m have "holds_line (board g') (a, b, c)"
    by (simp add: holds_line_iff)
  with lines_after_move[OF wf acc(2) m(2)] acc(4)
  have "cell_at (board g') a = Some (currentPlayer g)" by simp
  with bnd m show ?thesis by (simp add: cell_at_def)
qed

text \<open>The table of the code holds the eight lines of the grid, and nothing else.\<close>

lemma three_equal_wins: "three_equal bd m \<longleftrightarrow> wins bd m"
  by (simp add: three_equal_def wins_def winPatterns_def numeral_2_eq_2)

lemma wf_game_wins:
  "wf_game g \<longleftrightarrow>
     length (board g) = 9 \<and> (currentPlayer g = ''X'' \<or> currentPlayer g = ''O'') \<and>
     (\<forall>m. wins (board g) m \<longrightarrow> m = currentPlayer g)"
proof (cases "length (board g) = 9 \<and> (currentPlayer g = ''X'' \<or> currentPlayer g = ''O'')")
  case False
  then show ?thesis by (auto simp: wf_game_iff)
next
  case True
  then have len: "length (board g) = 9" and cur: "currentPlayer g \<noteq> ''''" by auto
  have "(\<forall>p \<in> set winPatterns. holds_line (board g) p \<longrightarrow> cell_at (board g) (fst p) = Some (currentPlayer g))
      \<longleftrightarrow> (\<forall>m. three_equal (board g) m \<longrightarrow> m = currentPlayer g)"
    using len cur
    by (simp add: winPatterns_def three_equal_def holds_line_def cell_at_def) blast
  with True show ?thesis by (simp add: wf_game_iff three_equal_wins)
qed

subsection \<open>Runs of accepted moves\<close>

lemma play_length: "play g ms = Some gs \<Longrightarrow> length gs = length ms"
  by (induction ms arbitrary: g gs) (auto split: sum.splits prod.splits bool.splits)

lemma play_nth:
  "play g ms = Some gs \<Longrightarrow> j < length ms \<Longrightarrow>
   makeMove ((g # gs) ! j) (fst (ms ! j)) (snd (ms ! j)) = Inr (True, (g # gs) ! Suc j)"
proof (induction ms arbitrary: g gs j)
  case Nil
  then show ?case by simp
next
  case (Cons m ms)
  from Cons.prems(1) obtain g' gs' where
    mv: "makeMove g (fst m) (snd m) = Inr (True, g')" and
    pl: "play g' ms = Some gs'" and gs: "gs = g' # gs'"
    by (auto split: sum.splits prod.splits bool.splits)
  show ?case
  proof (cases j)
    case 0
    with mv gs show ?thesis by simp
  next
    case (Suc j')
    with Cons.prems(2) have "j' < length ms" by simp
    from Cons.IH[OF pl this] Suc gs show ?thesis by simp
  qed
qed

lemma play_turn:
  assumes "fresh g0" and "play g0 ms = Some gs"
  shows "j < length ms \<Longrightarrow> currentPlayer ((g0 # gs) ! j) = turn_of j"
proof (induction j)
  case 0
  with assms(1) show ?case by (simp add: fresh_def turn_of_def)
next
  case (Suc j)
  then have j: "j < length ms" and ih: "currentPlayer ((g0 # gs) ! j) = turn_of j" by simp_all
  note mv = play_nth[OF assms(2) j]
  have "gameActive ((g0 # gs) ! Suc j)"
    using makeMove_accepted(1)[OF play_nth[OF assms(2) Suc.prems]] .
  with accepted_turn[OF mv] ih show ?case
    by (simp add: turn_of_def other_player_def)
qed

lemma play_keeps_cell:
  assumes "play g0 ms = Some gs" and "cell_at (board ((g0 # gs) ! j)) c = Some x" and "x \<noteq> ''''"
  shows "j \<le> k \<Longrightarrow> k \<le> length ms \<Longrightarrow> cell_at (board ((g0 # gs) ! k)) c = Some x"
proof (induction k)
  case 0
  with assms(2) show ?case by simp
next
  case (Suc k)
  show ?case
  proof (cases "j = Suc k")
    case True
    with assms(2) show ?thesis by simp
  next
    case False
    with Suc have "cell_at (board ((g0 # gs) ! k)) c = Some x" and k: "k < length ms" by simp_all
    with accepted_keeps_cell[OF play_nth[OF assms(1) k] _ assms(3)] show ?thesis by simp
  qed
qed

lemma fresh_new_game: "fresh (new_game\<lparr>players := ps, gameActive := a\<rparr>)"
  by (simp add: fresh_def new_game_def)

lemma fresh_started: "fresh started"
  by (simp add: fresh_def started_def new_game_def)

lemma fresh_reset: "fresh (reset g)"
  by (simp add: fresh_def reset_def)

subsection \<open>Evaluation of the concrete games\<close>

lemma replicate_9: "replicate 9 x = [x, x, x, x, x, x, x, x, x]"
  by (simp add: numeral_eq_Suc)

lemma list_update_numeral [simp]:
  "(x # xs)[numeral n := y] = x # xs[pred_numeral n := y]"
  by (simp add: numeral_eq_Suc)

lemmas eval_defs = replicate_9 makeMove_def player_entry_def object_prototype_def board_at_def
  cell_at_def checkWinner_def winPatterns_def holds_line_def other_player_def Let_def alice_bob_def
  started_def new_game_def snapshot_def

lemma play_five_states: "play started five_moves = Some five_states"
  by (simp add: five_moves_def five_states_def eval_defs)

lemma length_five_moves: "4 < length five_moves"
  by (simp add: five_moves_def)

lemma wf_last_cell_game: "wf_game last_cell_game"
  by (simp add: wf_game_def last_cell_game_def snapshot_def winPatterns_def holds_line_def cell_at_def)

lemma no_line_last_cell_game: "\<forall>m. wins (board last_cell_game) m \<longrightarrow> m = currentPlayer last_cell_game"
  using wf_last_cell_game by (simp add: wf_game_wins)

lemma last_cell_move: "makeMove last_cell_game 8 ''a'' = Inr (True, last_cell_won)"
  by (simp add: last_cell_game_def last_cell_won_def eval_defs)

lemma length_board_started: "length (board started) = 9"
  by (simp add: started_def new_game_def)

section \<open>Properties of the server\<close>

subsection \<open>Room codes\<close>

lemma upper_char_simps:
  "upper_char CHR ''4'' = CHR ''4''" "upper_char CHR ''f'' = CHR ''F''"
  "upper_char CHR ''z'' = CHR ''Z''" "upper_char CHR ''y'' = CHR ''Y''"
  "upper_char CHR ''o'' = CHR ''O''" "upper_char CHR ''8'' = CHR ''8''"
  "upper_char CHR ''i'' = CHR ''I''"
  by (simp_all add: upper_char_def)

lemma upper_char_digit36: "digit36 c \<Longrightarrow> upper_alnum (upper_char c)"
  unfolding digit36_def upper_alnum_def upper_char_def
  by (elim disjE | simp)+

lemma substring_2_8: "substring 2 8 r = take 6 (drop 2 r)"
  by (simp add: substring_def Let_def min_def max_def)

lemma code_draw1: "generateRoomCode draw1 = code1"
  by (simp add: generateRoomCode_def substring_def toUpperCase_def draw1_def code1_def
      upper_char_simps)

subsection \<open>The invariants\<close>

text \<open>What one event does to the rooms: a property of every room holds after a handler
  when it holds of the room the handler writes.\<close>

lemma on_makeMove_rooms:
  assumes "on_makeMove st sid i = Inr (st', out)"
  shows "st' = st \<or>
         (\<exists>rc rm ok g. rooms st rc = Some rm \<and>
            makeMove (game rm) i sid = Inr (ok, g) \<and>
            st' = st\<lparr>rooms := (rooms st)(rc \<mapsto> rm\<lparr>game := g\<rparr>)\<rparr>)"
  using assms
  by (auto simp: on_makeMove_def Let_def split: option.splits sum.splits prod.splits if_splits)

lemma rooms_allI: "(\<And>c rm. rooms st c = Some rm \<Longrightarrow> Q rm) \<Longrightarrow> rooms_all Q st"
  by (simp add: rooms_all_def)

lemma rooms_allD: "rooms_all Q st \<Longrightarrow> rooms st c = Some rm \<Longrightarrow> Q rm"
  by (simp add: rooms_all_def)

lemma rooms_all_init: "rooms_all Q init"
  by (simp add: rooms_all_def init_def)

lemma rooms_all_upd:
  assumes "rooms_all Q st" and "Q rm'" and "rooms st' = (rooms st)(c \<mapsto> rm')"
  shows "rooms_all Q st'"
  using assms by (auto simp: rooms_all_def)

lemma rooms_all_del:
  assumes "rooms_all Q st" and "rooms st' = (rooms st)(c := None)"
  shows "rooms_all Q st'"
  using assms by (auto simp: rooms_all_def)

lemma rooms_all_same:
  assumes "rooms_all Q st" and "rooms st' = rooms st"
  shows "rooms_all Q st'"
  using assms by (auto simp: rooms_all_def)

lemma rooms_all_createRoom:
  assumes "rooms_all Q st" and "createRoom st sid pn r = Inr (st', out)"
    and "Q \<lparr>game = new_game\<lparr>players := [(sid, \<lparr>pname = pn, symbol = ''X'', isHost = True\<rparr>)]\<rparr>,
            room_players = [sid]\<rparr>"
  shows "rooms_all Q st'"
proof -
  from assms(2) have "rooms st' = (rooms st)(generateRoomCode r \<mapsto>
      \<lparr>game = new_game\<lparr>players := [(sid, \<lparr>pname = pn, symbol = ''X'', isHost = True\<rparr>)]\<rparr>,
       room_players = [sid]\<rparr>)"
    by (auto simp: createRoom_def Let_def new_game_def)
  from rooms_all_upd[OF assms(1) assms(3) this] show ?thesis .
qed

lemma rooms_all_joinRoom:
  assumes "rooms_all Q st" and "joinRoom st sid rc pn = Inr (st', out)"
    and "\<And>rm. rooms st rc = Some rm \<Longrightarrow> Q rm \<Longrightarrow> length (room_players rm) < 2 \<Longrightarrow>
           Q \<lparr>game = (game rm)\<lparr>players :=
                       AList.update sid \<lparr>pname = pn, symbol = ''O'', isHost = False\<rparr>
                         (players (game rm)), gameActive := True\<rparr>,
              room_players = room_players rm @ [sid]\<rparr>"
  shows "rooms_all Q st'"
proof (cases "rooms st rc")
  case None
  with assms(2) have "st' = st" by (simp add: joinRoom_def)
  with assms(1) show ?thesis by simp
next
  case (Some rm)
  show ?thesis
  proof (cases "2 \<le> length (room_players rm)")
    case True
    with Some assms(2) have "st' = st" by (simp add: joinRoom_def)
    with assms(1) show ?thesis by simp
  next
    case False
    from assms(2) Some False
    have r: "rooms st' = (rooms st)(rc \<mapsto>
            \<lparr>game = (game rm)\<lparr>players :=
                       AList.update sid \<lparr>pname = pn, symbol = ''O'', isHost = False\<rparr>
                         (players (game rm)), gameActive := True\<rparr>,
             room_players = room_players rm @ [sid]\<rparr>)"
      by (auto simp: joinRoom_def Let_def split: option.splits entry.splits)
    from False have "length (room_players rm) < 2" by simp
    from rooms_all_upd[OF assms(1) assms(3)[OF Some rooms_allD[OF assms(1) Some] this] r]
    show ?thesis .
  qed
qed

lemma rooms_all_on_makeMove:
  assumes "rooms_all Q st" and "on_makeMove st sid i = Inr (st', out)"
    and "\<And>rm g. Q rm \<Longrightarrow> makeMove (game rm) i sid = Inr (True, g) \<Longrightarrow> Q (rm\<lparr>game := g\<rparr>)"
  shows "rooms_all Q st'"
proof -
  from on_makeMove_rooms[OF assms(2)] show ?thesis
  proof
    assume "st' = st"
    with assms(1) show ?thesis by simp
  next
    assume "\<exists>rc rm ok g. rooms st rc = Some rm \<and>
            makeMove (game rm) i sid = Inr (ok, g) \<and>
            st' = st\<lparr>rooms := (rooms st)(rc \<mapsto> rm\<lparr>game := g\<rparr>)\<rparr>"
    then obtain rc rm ok g where rm: "rooms st rc = Some rm"
      and mv: "makeMove (game rm) i sid = Inr (ok, g)"
      and st': "st' = st\<lparr>rooms := (rooms st)(rc \<mapsto> rm\<lparr>game := g\<rparr>)\<rparr>"
      by (elim exE conjE) (rule that)
    note q = rooms_allD[OF assms(1) rm]
    have "Q (rm\<lparr>game := g\<rparr>)"
    proof (cases ok)
      case True
      with mv assms(3)[OF q] show ?thesis by simp
    next
      case False
      with mv have "g = game rm" by (simp add: makeMove_false_unchanged)
      with q show ?thesis by simp
    qed
    moreover from st' have "rooms st' = (rooms st)(rc \<mapsto> rm\<lparr>game := g\<rparr>)" by simp
    ultimately show ?thesis by (rule rooms_all_upd[OF assms(1)])
  qed
qed

lemma rooms_all_resetGame:
  assumes "rooms_all Q st" and "resetGame st sid = Inr (st', out)"
    and "\<And>pd rm. playersMap st sid = Some pd \<Longrightarrow> rooms st (roomCode pd) = Some rm \<Longrightarrow> Q rm \<Longrightarrow>
           Q (rm\<lparr>game := reset (game rm)\<rparr>)"
  shows "rooms_all Q st'"
proof (cases "playersMap st sid")
  case None
  with assms(2) have "st' = st" by (simp add: resetGame_def)
  with assms(1) show ?thesis by simp
next
  case (Some pd)
  show ?thesis
  proof (cases "rooms st (roomCode pd)")
    case None
    with Some assms(2) have "st' = st" by (simp add: resetGame_def)
    with assms(1) show ?thesis by simp
  next
    case rm: (Some rm)
    from assms(2) Some rm
    have "rooms st' = (rooms st)(roomCode pd \<mapsto> rm\<lparr>game := reset (game rm)\<rparr>)"
      by (auto simp: resetGame_def Let_def)
    from rooms_all_upd[OF assms(1) assms(3)[OF Some rm rooms_allD[OF assms(1) rm]] this]
    show ?thesis .
  qed
qed

lemma rooms_all_disconnect:
  assumes "rooms_all Q st" and "disconnect st sid = Inr (st', out)"
    and "\<And>pd rm. playersMap st sid = Some pd \<Longrightarrow> rooms st (roomCode pd) = Some rm \<Longrightarrow> Q rm \<Longrightarrow>
           filter (\<lambda>id. id \<noteq> sid) (room_players rm) \<noteq> [] \<Longrightarrow>
           Q \<lparr>game = (game rm)\<lparr>gameActive := False\<rparr>,
              room_players = filter (\<lambda>id. id \<noteq> sid) (room_players rm)\<rparr>"
  shows "rooms_all Q st'"
proof (cases "playersMap st sid")
  case None
  with assms(2) have "st' = st" by (simp add: disconnect_def)
  with assms(1) show ?thesis by simp
next
  case (Some pd)
  show ?thesis
  proof (cases "rooms st (roomCode pd)")
    case None
    with Some assms(2) have "rooms st' = rooms st" by (auto simp: disconnect_def)
    with assms(1) show ?thesis by (rule rooms_all_same)
  next
    case rm: (Some rm)
    show ?thesis
    proof (cases "filter (\<lambda>id. id \<noteq> sid) (room_players rm) = []")
      case True
      with assms(2) Some rm have "rooms st' = (rooms st)(roomCode pd := None)"
        by (auto simp: disconnect_def Let_def)
      with assms(1) show ?thesis by (rule rooms_all_del)
    next
      case False
      with assms(2) Some rm have "rooms st' = (rooms st)(roomCode pd \<mapsto>
          \<lparr>game = (game rm)\<lparr>gameActive := False\<rparr>,
           room_players = filter (\<lambda>id. id \<noteq> sid) (room_players rm)\<rparr>)"
        by (auto simp: disconnect_def Let_def)
      from rooms_all_upd[OF assms(1) assms(3)[OF Some rm rooms_allD[OF assms(1) rm] False] this]
      show ?thesis .
    qed
  qed
qed

text \<open>A property of every room that each event of a run keeps, under the condition of
  the run, holds at the end of the run.\<close>

lemma rooms_all_run:
  assumes "run st evs = Inr st'" and "run_where P st evs" and "rooms_all Q st"
    and "\<And>s e s' out. rooms_all Q s \<Longrightarrow> P s e \<Longrightarrow> step s e = Inr (s', out) \<Longrightarrow> rooms_all Q s'"
  shows "rooms_all Q st'"
  using assms(1-3)
proof (induction evs arbitrary: st)
  case Nil
  then show ?case by simp
next
  case (Cons e es)
  from Cons.prems(1) obtain s out where s: "step st e = Inr (s, out)" and r: "run s es = Inr st'"
    by (auto split: sum.splits prod.splits)
  from Cons.prems(2) s have p: "P st e" and w: "run_where P s es" by simp_all
  from assms(4)[OF Cons.prems(3) p s] have "rooms_all Q s" .
  from Cons.IH[OF r w this] show ?case .
qed

lemma run_where_any: "run_where any_event st evs"
  by (induction evs arbitrary: st) (auto split: sum.splits)

text \<open>The properties of the rooms, event by event.\<close>

lemma length_filter_bound: "length xs \<le> n \<Longrightarrow> length (filter P xs) \<le> n"
  by (rule order_trans[OF length_filter_le])

lemma nonempty_length: "xs \<noteq> [] \<Longrightarrow> Suc 0 \<le> length xs"
  by (cases xs) simp_all

lemma entries_ok_step:
  assumes "rooms_all entries_ok s" and "step s e = Inr (s', out)"
  shows "rooms_all entries_ok s'"
proof (cases e)
  case (CreateRoom sid pn r)
  with assms show ?thesis
    by (auto intro!: rooms_all_createRoom[where st = s] simp: entries_ok_def)
next
  case (JoinRoom sid rc pn)
  with assms show ?thesis
    by (auto intro!: rooms_all_joinRoom[where st = s] simp: entries_ok_def)
next
  case (MakeMove sid i)
  with assms show ?thesis
    by (auto intro!: rooms_all_on_makeMove[where st = s] simp: entries_ok_def)
next
  case (ResetGame sid)
  with assms show ?thesis
    by (auto intro!: rooms_all_resetGame[where st = s] simp: entries_ok_def)
next
  case (Disconnect sid)
  with assms show ?thesis
    by (auto intro!: rooms_all_disconnect[where st = s] length_filter_bound nonempty_length
        simp: entries_ok_def)
qed

lemma active_pair_step:
  assumes "rooms_all active_pair s" and "reset_in_pair s e" and "step s e = Inr (s', out)"
  shows "rooms_all active_pair s'"
proof (cases e)
  case (CreateRoom sid pn r)
  with assms show ?thesis
    by (auto intro!: rooms_all_createRoom[where st = s] simp: active_pair_def entries_ok_def new_game_def)
next
  case (JoinRoom sid rc pn)
  with assms show ?thesis
    by (auto intro!: rooms_all_joinRoom[where st = s] simp: active_pair_def entries_ok_def)
next
  case (MakeMove sid i)
  with assms show ?thesis
    by (auto intro!: rooms_all_on_makeMove[where st = s] simp: active_pair_def entries_ok_def
        dest: makeMove_active)
next
  case (ResetGame sid)
  with assms show ?thesis
    by (auto intro!: rooms_all_resetGame[where st = s] simp: active_pair_def entries_ok_def)
next
  case (Disconnect sid)
  with assms show ?thesis
    by (auto intro!: rooms_all_disconnect[where st = s] length_filter_bound nonempty_length
        simp: active_pair_def entries_ok_def)
qed

lemma entries_distinct_step:
  assumes "rooms_all entries_distinct s" and "join_by_other s e" and "step s e = Inr (s', out)"
  shows "rooms_all entries_distinct s'"
proof (cases e)
  case (CreateRoom sid pn r)
  with assms show ?thesis
    by (auto intro!: rooms_all_createRoom[where st = s] simp: entries_distinct_def)
next
  case (JoinRoom sid rc pn)
  with assms show ?thesis
    by (auto intro!: rooms_all_joinRoom[where st = s] simp: entries_distinct_def)
next
  case (MakeMove sid i)
  with assms show ?thesis
    by (auto intro!: rooms_all_on_makeMove[where st = s] simp: entries_distinct_def)
next
  case (ResetGame sid)
  with assms show ?thesis
    by (auto intro!: rooms_all_resetGame[where st = s] simp: entries_distinct_def)
next
  case (Disconnect sid)
  with assms show ?thesis
    by (auto intro!: rooms_all_disconnect[where st = s] simp: entries_distinct_def)
qed

lemma accepted_active_open:
  assumes "makeMove g i pid = Inr (True, g')" and "gameActive g \<longrightarrow> winner g = None"
  shows "gameActive g' \<longrightarrow> winner g' = None"
proof
  assume a: "gameActive g'"
  note acc = makeMove_accepted[OF assms(1)]
  from a acc(6) have nw: "\<not> checkWinner (board g')" by auto
  with a acc(7) have nf: "\<not> list_all (\<lambda>c. c \<noteq> '''') (board g')" by auto
  from acc(8)[OF nw nf] acc(1) assms(2) show "winner g' = None" by simp
qed

lemma active_open_step:
  assumes "rooms_all active_open s" and "join_unfinished s e" and "step s e = Inr (s', out)"
  shows "rooms_all active_open s'"
proof (cases e)
  case (CreateRoom sid pn r)
  with assms show ?thesis
    by (auto intro!: rooms_all_createRoom[where st = s] simp: active_open_def new_game_def)
next
  case (JoinRoom sid rc pn)
  with assms show ?thesis
    by (auto intro!: rooms_all_joinRoom[where st = s] simp: active_open_def)
next
  case (MakeMove sid i)
  with assms show ?thesis
    by (auto intro!: rooms_all_on_makeMove[where st = s] simp: active_open_def
        dest: accepted_active_open)
next
  case (ResetGame sid)
  with assms show ?thesis
    by (auto intro!: rooms_all_resetGame[where st = s] simp: active_open_def reset_def)
next
  case (Disconnect sid)
  with assms show ?thesis
    by (auto intro!: rooms_all_disconnect[where st = s] simp: active_open_def)
qed

lemma accepted_open_active:
  assumes "makeMove g i pid = Inr (True, g')" and "winner g' = None"
  shows "gameActive g'"
proof -
  note acc = makeMove_accepted[OF assms(1)]
  from acc(6) assms(2) have nw: "\<not> checkWinner (board g')" by auto
  with acc(7) assms(2) have nf: "\<not> list_all (\<lambda>c. c \<noteq> '''') (board g')" by auto
  from acc(8)[OF nw nf] show ?thesis by simp
qed

lemma length_filter_member:
  assumes "x \<in> set xs"
  shows "length (filter (\<lambda>y. y \<noteq> x) xs) < length xs"
  using assms by (induction xs) (auto simp: less_Suc_eq_le)

lemma open_pair_active_step:
  assumes "rooms_all open_pair_active s" and "leave_by_member s e" and "step s e = Inr (s', out)"
  shows "rooms_all open_pair_active s'"
proof (cases e)
  case (CreateRoom sid pn r)
  with assms show ?thesis
    by (auto intro!: rooms_all_createRoom[where st = s] simp: open_pair_active_def entries_ok_def)
next
  case (JoinRoom sid rc pn)
  with assms show ?thesis
    by (auto intro!: rooms_all_joinRoom[where st = s] simp: open_pair_active_def entries_ok_def)
next
  case (MakeMove sid i)
  with assms show ?thesis
    by (auto intro!: rooms_all_on_makeMove[where st = s] simp: open_pair_active_def entries_ok_def
        dest: accepted_open_active)
next
  case (ResetGame sid)
  with assms show ?thesis
    by (auto intro!: rooms_all_resetGame[where st = s] simp: open_pair_active_def entries_ok_def reset_def)
next
  case (Disconnect sid)
  with assms show ?thesis
    by (auto intro!: rooms_all_disconnect[where st = s] length_filter_bound nonempty_length
        simp: open_pair_active_def entries_ok_def dest!: length_filter_member)
qed

text \<open>An inactive game and the departure notices of the run.\<close>

lemma left_notice_append: "left_notice tr c \<Longrightarrow> left_notice (tr @ out) c"
  by (auto simp: left_notice_def)

lemma inactive_explained_append:
  "inactive_explained st tr \<Longrightarrow> inactive_explained st (tr @ out)"
  by (auto simp: inactive_explained_def dest: left_notice_append)

lemma inactive_explained_upd:
  assumes "inactive_explained st tr" and "rooms st' = (rooms st)(c \<mapsto> rm)"
    and "gameActive (game rm) \<or> length (room_players rm) < 2 \<or> winner (game rm) \<noteq> None \<or>
         left_notice (tr @ out) c"
  shows "inactive_explained st' (tr @ out)"
  using assms by (auto simp: inactive_explained_def dest: left_notice_append)

lemma inactive_explained_del:
  assumes "inactive_explained st tr" and "rooms st' = (rooms st)(c := None)"
  shows "inactive_explained st' (tr @ out)"
  using assms by (auto simp: inactive_explained_def dest: left_notice_append)

lemma inactive_explained_same:
  assumes "inactive_explained st tr" and "rooms st' = rooms st"
  shows "inactive_explained st' (tr @ out)"
  using assms by (auto simp: inactive_explained_def dest: left_notice_append)

lemma inactive_explained_step:
  assumes "inactive_explained st tr" and "step st e = Inr (st', out)"
  shows "inactive_explained st' (tr @ out)"
proof (cases e)
  case (CreateRoom sid pn r)
  with assms(2) have "rooms st' = (rooms st)(generateRoomCode r \<mapsto>
      \<lparr>game = new_game\<lparr>players := [(sid, \<lparr>pname = pn, symbol = ''X'', isHost = True\<rparr>)]\<rparr>,
       room_players = [sid]\<rparr>)"
    by (auto simp: createRoom_def Let_def new_game_def)
  from inactive_explained_upd[OF assms(1) this] show ?thesis by simp
next
  case (JoinRoom sid rc pn)
  with assms(2) have j: "joinRoom st sid rc pn = Inr (st', out)" by simp
  show ?thesis
  proof (cases "rooms st rc")
    case None
    with j have "st' = st" by (simp add: joinRoom_def)
    with assms(1) show ?thesis by (simp add: inactive_explained_append)
  next
    case (Some rm)
    show ?thesis
    proof (cases "2 \<le> length (room_players rm)")
      case True
      with Some j have "st' = st" by (simp add: joinRoom_def)
      with assms(1) show ?thesis by (simp add: inactive_explained_append)
    next
      case False
      with j Some
      have "rooms st' = (rooms st)(rc \<mapsto>
            \<lparr>game = (game rm)\<lparr>players :=
                       AList.update sid \<lparr>pname = pn, symbol = ''O'', isHost = False\<rparr>
                         (players (game rm)), gameActive := True\<rparr>,
             room_players = room_players rm @ [sid]\<rparr>)"
        by (auto simp: joinRoom_def Let_def split: option.splits entry.splits)
      from inactive_explained_upd[OF assms(1) this] show ?thesis by simp
    qed
  qed
next
  case (MakeMove sid i)
  with assms(2) have m: "on_makeMove st sid i = Inr (st', out)" by simp
  from on_makeMove_rooms[OF m] show ?thesis
  proof
    assume "st' = st"
    with assms(1) show ?thesis by (simp add: inactive_explained_append)
  next
    assume "\<exists>rc rm ok g. rooms st rc = Some rm \<and>
            makeMove (game rm) i sid = Inr (ok, g) \<and>
            st' = st\<lparr>rooms := (rooms st)(rc \<mapsto> rm\<lparr>game := g\<rparr>)\<rparr>"
    then obtain rc rm ok g where rm: "rooms st rc = Some rm"
      and mv: "makeMove (game rm) i sid = Inr (ok, g)"
      and st': "st' = st\<lparr>rooms := (rooms st)(rc \<mapsto> rm\<lparr>game := g\<rparr>)\<rparr>"
      by (elim exE conjE) (rule that)
    from assms(1) rm have old: "gameActive (game rm) \<or> length (room_players rm) < 2 \<or>
        winner (game rm) \<noteq> None \<or> left_notice tr rc"
      by (simp add: inactive_explained_def)
    have new: "gameActive g \<or> length (room_players rm) < 2 \<or> winner g \<noteq> None \<or>
        left_notice (tr @ out) rc"
    proof (cases ok)
      case True
      with mv accepted_open_active[of "game rm" i sid g] show ?thesis by auto
    next
      case False
      with mv have "g = game rm" by (simp add: makeMove_false_unchanged)
      with old show ?thesis by (auto dest: left_notice_append)
    qed
    from st' have "rooms st' = (rooms st)(rc \<mapsto> rm\<lparr>game := g\<rparr>)" by simp
    from inactive_explained_upd[OF assms(1) this] new show ?thesis by simp
  qed
next
  case (ResetGame sid)
  with assms(2) have r: "resetGame st sid = Inr (st', out)" by simp
  show ?thesis
  proof (cases "playersMap st sid")
    case None
    with r have "st' = st" by (simp add: resetGame_def)
    with assms(1) show ?thesis by (simp add: inactive_explained_append)
  next
    case (Some pd)
    show ?thesis
    proof (cases "rooms st (roomCode pd)")
      case None
      with Some r have "st' = st" by (simp add: resetGame_def)
      with assms(1) show ?thesis by (simp add: inactive_explained_append)
    next
      case rm: (Some rm)
      with r Some
      have "rooms st' = (rooms st)(roomCode pd \<mapsto> rm\<lparr>game := reset (game rm)\<rparr>)"
        by (auto simp: resetGame_def Let_def)
      from inactive_explained_upd[OF assms(1) this] show ?thesis by (simp add: reset_def)
    qed
  qed
next
  case (Disconnect sid)
  with assms(2) have d: "disconnect st sid = Inr (st', out)" by simp
  show ?thesis
  proof (cases "playersMap st sid")
    case None
    with d have "st' = st" by (simp add: disconnect_def)
    with assms(1) show ?thesis by (simp add: inactive_explained_append)
  next
    case (Some pd)
    show ?thesis
    proof (cases "rooms st (roomCode pd)")
      case None
      with Some d have "rooms st' = rooms st" by (auto simp: disconnect_def)
      from inactive_explained_same[OF assms(1) this] show ?thesis .
    next
      case rm: (Some rm)
      with d Some
      have out: "out = [(ToOthers sid (roomCode pd), PlayerDisconnected (playerName pd))]"
        by (auto simp: disconnect_def Let_def)
      then have n: "left_notice (tr @ out) (roomCode pd)"
        by (auto simp: left_notice_def)
      show ?thesis
      proof (cases "filter (\<lambda>id. id \<noteq> sid) (room_players rm) = []")
        case True
        with d Some rm have "rooms st' = (rooms st)(roomCode pd := None)"
          by (auto simp: disconnect_def Let_def)
        from inactive_explained_del[OF assms(1) this] show ?thesis .
      next
        case False
        with d Some rm have "rooms st' = (rooms st)(roomCode pd \<mapsto>
            \<lparr>game = (game rm)\<lparr>gameActive := False\<rparr>,
             room_players = filter (\<lambda>id. id \<noteq> sid) (room_players rm)\<rparr>)"
          by (auto simp: disconnect_def Let_def)
        from inactive_explained_upd[OF assms(1) this] n show ?thesis by simp
      qed
    qed
  qed
qed

lemma inactive_explained_run:
  assumes "run st evs = Inr st'" and "inactive_explained st tr"
  shows "inactive_explained st' (tr @ emitted st evs)"
  using assms
proof (induction evs arbitrary: st tr)
  case Nil
  then show ?case by simp
next
  case (Cons e es)
  from Cons.prems(1) obtain s out where s: "step st e = Inr (s, out)" and r: "run s es = Inr st'"
    by (auto split: sum.splits prod.splits)
  from inactive_explained_step[OF Cons.prems(2) s] have "inactive_explained s (tr @ out)" .
  from Cons.IH[OF r this] s show ?case by simp
qed

lemma inactive_explained_init: "inactive_explained init []"
  by (simp add: inactive_explained_def init_def)

lemma inactive_is_explained:
  assumes "run init evs = Inr st" and "rooms st c = Some rm"
  shows "gameActive (game rm) \<or> length (room_players rm) < 2 \<or> winner (game rm) \<noteq> None \<or>
         left_notice (emitted init evs) c"
  using inactive_explained_run[OF assms(1) inactive_explained_init] assms(2)
  by (simp add: inactive_explained_def)

text \<open>The games of the registry.\<close>

lemma games_wf_init: "games_wf init"
  by (simp add: games_wf_def init_def)

lemma games_wf_createRoom:
  assumes "games_wf st" and "createRoom st sid pn r = Inr (st', out)"
  shows "games_wf st'"
  using assms wf_game_new[where ps = "AList.update sid \<lparr>pname = pn, symbol = ''X'', isHost = True\<rparr> []" and a = False]
  by (auto simp: games_wf_def createRoom_def Let_def new_game_def split: if_splits)

lemma games_wf_joinRoom:
  assumes "games_wf st" and "joinRoom st sid rc pn = Inr (st', out)"
  shows "games_wf st'"
  using assms
  by (auto simp: games_wf_def joinRoom_def Let_def wf_game_fields
      split: option.splits entry.splits if_splits)

lemma games_wf_on_makeMove:
  assumes "games_wf st" and "on_makeMove st sid i = Inr (st', out)"
  shows "games_wf st'"
proof -
  from on_makeMove_rooms[OF assms(2)] show ?thesis
  proof
    assume "st' = st"
    with assms(1) show ?thesis by simp
  next
    assume "\<exists>rc rm ok g. rooms st rc = Some rm \<and>
            makeMove (game rm) i sid = Inr (ok, g) \<and>
            st' = st\<lparr>rooms := (rooms st)(rc \<mapsto> rm\<lparr>game := g\<rparr>)\<rparr>"
    then obtain rc rm ok g where rm: "rooms st rc = Some rm"
      and mv: "makeMove (game rm) i sid = Inr (ok, g)"
      and st': "st' = st\<lparr>rooms := (rooms st)(rc \<mapsto> rm\<lparr>game := g\<rparr>)\<rparr>"
      by (elim exE conjE) (rule that)
    from assms(1) rm have "wf_game (game rm)" by (simp add: games_wf_def)
    from wf_game_makeMove[OF this mv] have "wf_game g" .
    with assms(1) st' show ?thesis by (auto simp: games_wf_def)
  qed
qed

lemma games_wf_resetGame:
  assumes "games_wf st" and "resetGame st sid = Inr (st', out)"
  shows "games_wf st'"
  using assms
  by (auto simp: games_wf_def resetGame_def Let_def wf_game_reset
      split: option.splits if_splits)

lemma games_wf_disconnect:
  assumes "games_wf st" and "disconnect st sid = Inr (st', out)"
  shows "games_wf st'"
  using assms
  by (auto simp: games_wf_def disconnect_def Let_def wf_game_fields
      split: option.splits if_splits)

lemma games_wf_step:
  assumes "games_wf st" and "step st e = Inr (st', out)"
  shows "games_wf st'"
  using assms
  by (cases e)
    (auto intro: games_wf_createRoom games_wf_joinRoom games_wf_on_makeMove
      games_wf_resetGame games_wf_disconnect)

lemma games_wf_run:
  assumes "run st evs = Inr st'" and "games_wf st"
  shows "games_wf st'"
  using assms
proof (induction evs arbitrary: st)
  case Nil
  then show ?case by simp
next
  case (Cons e evs)
  from Cons.prems(1) obtain st1 out where s: "step st e = Inr (st1, out)"
    and r: "run st1 evs = Inr st'"
    by (auto split: sum.splits prod.splits)
  from games_wf_step[OF Cons.prems(2) s] have "games_wf st1" .
  from Cons.IH[OF r this] show ?case .
qed

















subsection \<open>Evaluation of the concrete states\<close>

lemmas server_defs = createRoom_def joinRoom_def on_makeMove_def resetGame_def disconnect_def
  winnerName_def object_keys_def array_index_def digit_value_def init_def code_draw1 code1_def

lemma create_init:
  "createRoom init ''a'' ''Alice'' draw1 =
     Inr (lobby, [(ToSocket ''a'', RoomCreated code1 ''X'' ''Alice''), (ToRoom code1, PlayerJoined ''Alice'' 1)])"
  by (simp add: createRoom_def code_draw1 init_def lobby_def host_game_def alice_data_def
      new_game_def)

lemma join_lobby:
  "joinRoom lobby ''b'' code1 ''Bob'' =
     Inr (both,
       [(ToSocket ''b'', RoomJoined code1 ''O'' ''Bob'' (Some ''Alice'')),
        (ToOthers ''b'' code1, OpponentJoined ''Bob''),
        (ToRoom code1, GameState (replicate 9 '''') ''X'' True alice_bob)])"
  by (simp add: joinRoom_def player_entry_def lobby_def both_def host_game_def started_def alice_bob_def
      alice_data_def bob_data_def new_game_def code1_def fun_upd_twist)

lemma reset_lobby:
  "resetGame lobby ''a'' = Inr (lobby_reset, [(ToRoom code1, GameReset (replicate 9 '''') ''X'' True)])"
  by (simp add: resetGame_def lobby_def lobby_reset_def alice_data_def reset_def)

lemma run_both: "run init [CreateRoom ''a'' ''Alice'' draw1, JoinRoom ''b'' code1 ''Bob''] = Inr both"
  by (simp add: create_init join_lobby)

lemma rooms_init: "rooms init ''NOCODE'' = None"
  by (simp add: init_def)



lemma rooms_both: "rooms both code1 = Some \<lparr>game = started, room_players = [''a'', ''b'']\<rparr>"
  by (simp add: both_def)

lemma playersMap_both: "playersMap both ''b'' = Some bob_data"
  by (simp add: both_def)

lemma rooms_both_bob: "rooms both (roomCode bob_data) = Some \<lparr>game = started, room_players = [''a'', ''b'']\<rparr>"
  by (simp add: both_def bob_data_def)


lemma rooms_alone:
  "rooms alone (roomCode alice_data) =
     Some \<lparr>game = started\<lparr>gameActive := False\<rparr>, room_players = [''a'']\<rparr>"
  by (simp add: alone_def alice_data_def)

lemma disconnect_both:
  "disconnect both ''b'' = Inr (alone, [(ToOthers ''b'' code1, PlayerDisconnected ''Bob'')])"
  by (simp add: disconnect_def both_def alone_def bob_data_def alice_data_def code1_def)


lemma map_of_alice: "map_of (players started) ''a'' = Some \<lparr>pname = ''Alice'', symbol = ''X'', isHost = True\<rparr>"
  by (simp add: started_def alice_bob_def)

lemma bob_out_of_turn: "makeMove (game \<lparr>game = started, room_players = [''a'', ''b'']\<rparr>) 4 ''b'' = Inr (False, started)"
  by (simp add: eval_defs)

text \<open>A room code drawn twice replaces the room of the first draw; the connection of the
  first room still points at the code, and its next move is a call of \<^verbatim>\<open>makeMove\<close>
  on a game that does not know it.\<close>

lemma run_collision: "run init collision = Inl TypeError"
  by (simp add: collision_def server_defs eval_defs)



lemma run_rematch: "run init rematch = Inr rematch_state"
  by (simp add: rematch_def rematch_state_def rematch_room_def server_defs eval_defs reset_def
      alice_data_def fun_upd_twist)

lemma rooms_rematch: "rooms rematch_state code1 = Some rematch_room"
  by (simp add: rematch_state_def)

lemma rematch_resets: "run_where reset_in_pair init rematch"
  by (simp add: rematch_def server_defs eval_defs)

lemma rematch_joins: "run_where join_by_other init rematch"
  by (simp add: rematch_def server_defs eval_defs)

lemma rematch_unfinished: "run_where join_unfinished init rematch"
  by (simp add: rematch_def server_defs eval_defs)

lemma run_parted: "run init parted = Inr alone"
  by (simp add: parted_def create_init join_lobby disconnect_both)

lemma notice_parted: "left_notice (emitted init parted) code1"
  by (simp add: parted_def create_init join_lobby disconnect_both left_notice_def)





section \<open>The claims of the specification\<close>

subsection \<open>C1: accepted moves alternate and never overwrite\<close>

text \<open>
  Claim C1, as amended. Take a game whose board is empty and whose turn is \<open>X\<close> (the
  constructor and \<^verbatim>\<open>reset\<close> leave it so), and any run of calls of
  \<^verbatim>\<open>makeMove\<close> that all return \<^verbatim>\<open>true\<close>. Then the \<open>j\<close>-th call (from 0)
  finds its cell empty and writes \<open>X\<close> when \<open>j\<close> is even and \<open>O\<close> when it is odd, which is
  the marker of the caller and the turn before the call; after the call the turn is the
  other marker when the game is still active, and is unchanged when the call ended the
  game; every call but the last leaves the game active; and a cell that holds a marker
  holds the same marker after every later call of the run.
\<close>

theorem accepted_moves_alternate:
  assumes "fresh g0" and "play g0 ms = Some gs" and "j < length ms"
  shows "board_at (board ((g0 # gs) ! j)) (fst (ms ! j)) = Some '''' \<and>
         board ((g0 # gs) ! Suc j) = (board ((g0 # gs) ! j))[nat (fst (ms ! j)) := turn_of j] \<and>
         (\<exists>p. map_of (players ((g0 # gs) ! j)) (snd (ms ! j)) = Some p \<and> symbol p = turn_of j) \<and>
         currentPlayer ((g0 # gs) ! j) = turn_of j \<and>
         currentPlayer ((g0 # gs) ! Suc j) =
           (if gameActive ((g0 # gs) ! Suc j) then turn_of (Suc j) else turn_of j) \<and>
         (Suc j < length ms \<longrightarrow> gameActive ((g0 # gs) ! Suc j)) \<and>
         (\<forall>k c x. j \<le> k \<and> k \<le> length ms \<and> cell_at (board ((g0 # gs) ! j)) c = Some x \<and> x \<noteq> ''''
            \<longrightarrow> cell_at (board ((g0 # gs) ! k)) c = Some x)"
proof -
  note mv = play_nth[OF assms(2,3)]
  note acc = makeMove_accepted[OF mv]
  have t: "currentPlayer ((g0 # gs) ! j) = turn_of j"
    by (rule play_turn[OF assms])
  have a: "Suc j < length ms \<longrightarrow> gameActive ((g0 # gs) ! Suc j)"
    using makeMove_accepted(1)[OF play_nth[OF assms(2), of "Suc j"]] by simp
  have c: "currentPlayer ((g0 # gs) ! Suc j) =
           (if gameActive ((g0 # gs) ! Suc j) then turn_of (Suc j) else turn_of j)"
    using accepted_turn[OF mv] t by (simp add: turn_of_def other_player_def)
  have k: "\<forall>k c x. j \<le> k \<and> k \<le> length ms \<and> cell_at (board ((g0 # gs) ! j)) c = Some x \<and> x \<noteq> ''''
            \<longrightarrow> cell_at (board ((g0 # gs) ! k)) c = Some x"
    using play_keeps_cell[OF assms(2)] by blast
  have b: "board ((g0 # gs) ! Suc j) = (board ((g0 # gs) ! j))[nat (fst (ms ! j)) := turn_of j]"
    using acc(4) t by simp
  have p: "\<exists>p. map_of (players ((g0 # gs) ! j)) (snd (ms ! j)) = Some p \<and> symbol p = turn_of j"
    using acc(3) t by simp
  show ?thesis
    by (intro conjI; fact)
qed

text \<open>The theorem at the five moves of Alice and Bob, for the fifth move.\<close>

theorem accepted_moves_alternate_witness:
  "fresh started \<and> play started five_moves = Some five_states \<and> 4 < length five_moves \<and>
   currentPlayer ((started # five_states) ! 4) = turn_of 4 \<and>
   currentPlayer ((started # five_states) ! Suc 4) =
     (if gameActive ((started # five_states) ! Suc 4) then turn_of (Suc 4) else turn_of 4) \<and>
   turn_of 4 = currentPlayer (five_states ! 4)"
proof -
  note th = accepted_moves_alternate[OF fresh_started play_five_states length_five_moves]
  from th have t: "currentPlayer ((started # five_states) ! 4) = turn_of 4"
    by (elim conjE)
  from th have c: "currentPlayer ((started # five_states) ! Suc 4) =
     (if gameActive ((started # five_states) ! Suc 4) then turn_of (Suc 4) else turn_of 4)"
    by (elim conjE)
  have e: "turn_of 4 = currentPlayer (five_states ! 4)"
    by (simp add: turn_of_def five_states_def snapshot_def)
  from fresh_started play_five_states length_five_moves t c e show ?thesis
    by (intro conjI)
qed

text \<open>
  Claim C1 as it was stated has the turn alternate on every accepted move. The fifth move
  of the run is accepted and wins the game: the turn is \<open>X\<close> before it and \<open>X\<close> after it.
\<close>

theorem winning_move_keeps_turn:
  "play started five_moves = Some five_states \<and>
   map currentPlayer five_states = [''O'', ''X'', ''O'', ''X'', ''X''] \<and>
   map gameActive five_states = [True, True, True, True, False]"
  by (simp add: play_five_states) (simp add: five_states_def snapshot_def)

subsection \<open>C2: what an accepted move does\<close>

text \<open>
  Claim C2. Take a game the server can hold: nine cells, the turn \<open>X\<close> or \<open>O\<close>, and
  no line of the grid filled by a marker other than the one whose turn it is.
  \<^verbatim>\<open>makeMove\<close> returns \<^verbatim>\<open>true\<close> exactly when the game is active, the cell is
  an empty cell of the board and the caller's marker is the turn. When it does, the
  caller's marker is written into the cell, nothing else of the board changes and the
  players are as they were. Then, in this order: if a marker fills one of the eight lines
  of the grid (three rows, three columns, two diagonals) on the new board, that marker is
  the caller's, \<^verbatim>\<open>winner\<close> is set to it (never to \<^verbatim>\<open>'draw'\<close>, also when the
  move filled the last cell) and the game is inactive; otherwise, if no cell is empty,
  \<^verbatim>\<open>winner\<close> is \<^verbatim>\<open>'draw'\<close> and the game is inactive; otherwise the turn goes
  to the other marker, the game stays active and \<^verbatim>\<open>winner\<close> is unchanged. The lines
  are those of \<^const>\<open>wins\<close>, not the table of the code.
\<close>

theorem makeMove_accepted_outcome:
  assumes "length (board g) = 9" and "currentPlayer g = ''X'' \<or> currentPlayer g = ''O''"
    and "\<forall>m. wins (board g) m \<longrightarrow> m = currentPlayer g"
  shows "((\<exists>g'. makeMove g i pid = Inr (True, g')) \<longleftrightarrow>
            gameActive g \<and> board_at (board g) i = Some '''' \<and>
            (\<exists>p. map_of (players g) pid = Some p \<and> symbol p = currentPlayer g)) \<and>
         (makeMove g i pid = Inr (True, g') \<longrightarrow>
            (\<exists>p. map_of (players g) pid = Some p \<and> board g' = (board g)[nat i := symbol p]) \<and>
            players g' = players g \<and>
            ((\<exists>m. wins (board g') m) \<longrightarrow>
               (\<forall>m. wins (board g') m \<longrightarrow> m = currentPlayer g) \<and>
               winner g' = Some (currentPlayer g) \<and> winner g' \<noteq> Some ''draw'' \<and>
               \<not> gameActive g' \<and> currentPlayer g' = currentPlayer g) \<and>
            ((\<nexists>m. wins (board g') m) \<and> full (board g') \<longrightarrow>
               winner g' = Some ''draw'' \<and> \<not> gameActive g' \<and>
               currentPlayer g' = currentPlayer g) \<and>
            ((\<nexists>m. wins (board g') m) \<and> \<not> full (board g') \<longrightarrow>
               winner g' = winner g \<and> gameActive g' \<and>
               currentPlayer g' \<noteq> currentPlayer g \<and>
               (currentPlayer g' = ''X'' \<or> currentPlayer g' = ''O'')))"
proof -
  from assms have wf: "wf_game g" by (simp add: wf_game_wins)
  have out: "(\<exists>p. map_of (players g) pid = Some p \<and> board g' = (board g)[nat i := symbol p]) \<and>
            players g' = players g \<and>
            ((\<exists>m. wins (board g') m) \<longrightarrow>
               (\<forall>m. wins (board g') m \<longrightarrow> m = currentPlayer g) \<and>
               winner g' = Some (currentPlayer g) \<and> winner g' \<noteq> Some ''draw'' \<and>
               \<not> gameActive g' \<and> currentPlayer g' = currentPlayer g) \<and>
            ((\<nexists>m. wins (board g') m) \<and> full (board g') \<longrightarrow>
               winner g' = Some ''draw'' \<and> \<not> gameActive g' \<and>
               currentPlayer g' = currentPlayer g) \<and>
            ((\<nexists>m. wins (board g') m) \<and> \<not> full (board g') \<longrightarrow>
               winner g' = winner g \<and> gameActive g' \<and>
               currentPlayer g' \<noteq> currentPlayer g \<and>
               (currentPlayer g' = ''X'' \<or> currentPlayer g' = ''O''))"
    if mv: "makeMove g i pid = Inr (True, g')"
  proof -
    note acc = makeMove_accepted[OF mv]
    have len: "length (board g') = 9"
      using assms(1) acc(4) by simp
    have cw: "checkWinner (board g') \<longleftrightarrow> (\<exists>m. wins (board g') m)"
      using checkWinner_iff[OF len] by (simp add: three_equal_wins)
    have nd: "currentPlayer g \<noteq> ''draw''" "other_player (currentPlayer g) \<noteq> currentPlayer g"
      using assms(2) by (auto simp: other_player_def)
    from acc(3) acc(4) have wr: "\<exists>p. map_of (players g) pid = Some p \<and>
        board g' = (board g)[nat i := symbol p]"
      by auto
    have mover: "\<forall>m. wins (board g') m \<longrightarrow> m = currentPlayer g"
      using three_equal_mover[OF wf mv] by (simp add: three_equal_wins)
    have win: "(\<exists>m. wins (board g') m) \<longrightarrow>
               (\<forall>m. wins (board g') m \<longrightarrow> m = currentPlayer g) \<and>
               winner g' = Some (currentPlayer g) \<and> winner g' \<noteq> Some ''draw'' \<and>
               \<not> gameActive g' \<and> currentPlayer g' = currentPlayer g"
      using acc(6) cw mover nd(1) by simp
    have draw: "(\<nexists>m. wins (board g') m) \<and> full (board g') \<longrightarrow>
               winner g' = Some ''draw'' \<and> \<not> gameActive g' \<and>
               currentPlayer g' = currentPlayer g"
      using acc(7) cw by (simp add: full_iff)
    have go: "(\<nexists>m. wins (board g') m) \<and> \<not> full (board g') \<longrightarrow>
               winner g' = winner g \<and> gameActive g' \<and>
               currentPlayer g' \<noteq> currentPlayer g \<and>
               (currentPlayer g' = ''X'' \<or> currentPlayer g' = ''O'')"
      using acc(8) cw nd(2) other_player_cases[of "currentPlayer g"] by (simp add: full_iff)
    from wr acc(5) win draw go show ?thesis by (intro conjI)
  qed
  show ?thesis
  proof (rule conjI)
    show "(\<exists>g'. makeMove g i pid = Inr (True, g')) \<longleftrightarrow>
            gameActive g \<and> board_at (board g) i = Some '''' \<and>
            (\<exists>p. map_of (players g) pid = Some p \<and> symbol p = currentPlayer g)"
      by (rule makeMove_accepts_iff)
  qed (rule impI, rule out)
qed

text \<open>The theorem at the move that fills the ninth cell and the diagonal at once.\<close>

theorem makeMove_accepted_outcome_witness:
  "length (board last_cell_game) = 9 \<and> currentPlayer last_cell_game = ''X'' \<and>
   makeMove last_cell_game 8 ''a'' = Inr (True, last_cell_won) \<and>
   wins (board last_cell_won) ''X'' \<and> full (board last_cell_won) \<and>
   winner last_cell_won = Some (currentPlayer last_cell_game) \<and>
   winner last_cell_won \<noteq> Some ''draw'' \<and> \<not> gameActive last_cell_won"
proof -
  have len: "length (board last_cell_game) = 9"
    by (simp add: last_cell_game_def snapshot_def)
  have cp: "currentPlayer last_cell_game = ''X''"
    by (simp add: last_cell_game_def snapshot_def)
  then have xo: "currentPlayer last_cell_game = ''X'' \<or> currentPlayer last_cell_game = ''O''" ..
  have te: "wins (board last_cell_won) ''X''"
    by (simp add: wins_def last_cell_won_def snapshot_def)
  have fl: "full (board last_cell_won)"
    by (simp add: full_iff[symmetric] last_cell_won_def snapshot_def)
  note th = makeMove_accepted_outcome[OF len xo no_line_last_cell_game, of 8 "''a''" last_cell_won,
      THEN conjunct2, THEN mp, OF last_cell_move]
  from th have w: "(\<exists>m. wins (board last_cell_won) m) \<longrightarrow>
            (\<forall>m. wins (board last_cell_won) m \<longrightarrow> m = currentPlayer last_cell_game) \<and>
            winner last_cell_won = Some (currentPlayer last_cell_game) \<and>
            winner last_cell_won \<noteq> Some ''draw'' \<and>
            \<not> gameActive last_cell_won \<and> currentPlayer last_cell_won = currentPlayer last_cell_game"
    by (elim conjE)
  from te have "\<exists>m. wins (board last_cell_won) m" ..
  with w have r: "(\<forall>m. wins (board last_cell_won) m \<longrightarrow> m = currentPlayer last_cell_game) \<and>
            winner last_cell_won = Some (currentPlayer last_cell_game) \<and>
            winner last_cell_won \<noteq> Some ''draw'' \<and>
            \<not> gameActive last_cell_won \<and> currentPlayer last_cell_won = currentPlayer last_cell_game" ..
  from r have w1: "winner last_cell_won = Some (currentPlayer last_cell_game)"
    by (elim conjE)
  from r have w2: "winner last_cell_won \<noteq> Some ''draw''"
    by (elim conjE)
  from r have w3: "\<not> gameActive last_cell_won"
    by (elim conjE)
  from len cp last_cell_move te fl w1 w2 w3 show ?thesis
    by (intro conjI)
qed

subsection \<open>C3: a rejected move changes nothing\<close>

text \<open>
  Claim C3. For every game, index and socket id: when the game is inactive, or the cell
  at the index is not an empty cell of the board, or the socket id has a marker and it is
  not the turn, \<^verbatim>\<open>makeMove\<close> returns \<^verbatim>\<open>false\<close> and the game (board, turn,
  players, activity, winner) is the one before the call.
\<close>

theorem makeMove_rejects:
  assumes "\<not> gameActive g \<or> board_at (board g) i \<noteq> Some '''' \<or>
           (\<exists>p. map_of (players g) pid = Some p \<and> symbol p \<noteq> currentPlayer g)"
  shows "makeMove g i pid = Inr (False, g)"
  using assms by (auto simp: makeMove_def player_entry_def)

text \<open>The theorem at an inactive game, at a taken cell and at a move out of turn.\<close>

theorem makeMove_rejects_witness:
  "makeMove (started\<lparr>gameActive := False\<rparr>) 0 ''a'' = Inr (False, started\<lparr>gameActive := False\<rparr>) \<and>
   makeMove (five_states ! 0) 0 ''b'' = Inr (False, five_states ! 0) \<and>
   makeMove started 0 ''b'' = Inr (False, started)"
proof -
  have "makeMove (started\<lparr>gameActive := False\<rparr>) 0 ''a'' = Inr (False, started\<lparr>gameActive := False\<rparr>)"
    by (rule makeMove_rejects) simp
  moreover have "makeMove (five_states ! 0) 0 ''b'' = Inr (False, five_states ! 0)"
    by (rule makeMove_rejects) (simp add: five_states_def snapshot_def board_at_def cell_at_def)
  moreover have "makeMove started 0 ''b'' = Inr (False, started)"
    by (rule makeMove_rejects) (simp add: started_def alice_bob_def new_game_def)
  ultimately show ?thesis by simp
qed

subsection \<open>C4: a socket id the game does not know\<close>

text \<open>
  Claim C4 says that \<^verbatim>\<open>makeMove\<close> returns for every game, index and socket id,
  also for a socket id that is no key of \<^verbatim>\<open>players\<close>. The code does not: when the
  game is active, the cell is empty and the socket id is neither an own key of
  \<^verbatim>\<open>players\<close> nor the name of a property of \<^verbatim>\<open>Object.prototype\<close>,
  \<^verbatim>\<open>this.players[playerId].symbol\<close> is read from \<^verbatim>\<open>undefined\<close> and the call
  throws a \<^verbatim>\<open>TypeError\<close>; the game is not written before the throw. The handlers
  reach such a call when a room code is drawn twice.
\<close>

theorem makeMove_unknown_player:
  assumes "gameActive g" and "board_at (board g) i = Some ''''"
    and "map_of (players g) pid = None" and "map_of object_prototype pid = None"
  shows "makeMove g i pid = Inl TypeError"
  using assms by (simp add: makeMove_def player_entry_def)

text \<open>The theorem at the started game of Alice and Bob and a socket id that never joined.\<close>

theorem makeMove_unknown_player_witness:
  "gameActive started \<and> board_at (board started) 0 = Some '''' \<and>
   map_of (players started) ''ghost'' = None \<and> map_of object_prototype ''ghost'' = None \<and>
   makeMove started 0 ''ghost'' = Inl TypeError"
proof -
  have a: "gameActive started" by (simp add: started_def)
  have b: "board_at (board started) 0 = Some ''''"
    by (simp add: started_def new_game_def board_at_def cell_at_def)
  have c: "map_of (players started) ''ghost'' = None"
    by (simp add: started_def alice_bob_def)
  have d: "map_of object_prototype ''ghost'' = None"
    by (simp add: object_prototype_def)
  from makeMove_unknown_player[OF a b c d] a b c d show ?thesis by (intro conjI)
qed

subsection \<open>C5: when a game is active\<close>

text \<open>
  Claim C5, as amended. In every state the server reaches from its start, through any
  events (create-room, join-room, make-move, reset-game, disconnect), every room of the
  registry has one or two entries in its list of members. Moreover:

  \<^item> when every reset-game of the run was asked in a room of two entries, a room whose
    game is active has exactly two entries: the game of a room with one entry is never
    active;

  \<^item> when no connection of the run joined a room it was an entry of, the entries of a
    room are distinct connections;

  \<^item> when no join-room of the run entered a room whose game had an outcome, an active
    game has no outcome: a game that has ended is inactive;

  \<^item> in every run, a game is inactive only when its room has fewer than two entries (the
    game has not begun, or a member left), or the game has an outcome (it has ended), or
    a departure notice was emitted for the code of the room (a departure stopped it).
\<close>

theorem active_needs_two_members:
  assumes "run init evs = Inr st" and "rooms st c = Some rm"
  shows "1 \<le> length (room_players rm) \<and> length (room_players rm) \<le> 2 \<and>
         (run_where reset_in_pair init evs \<longrightarrow>
            (gameActive (game rm) \<longrightarrow> length (room_players rm) = 2)) \<and>
         (run_where join_by_other init evs \<longrightarrow> distinct (room_players rm)) \<and>
         (run_where join_unfinished init evs \<longrightarrow>
            (gameActive (game rm) \<longrightarrow> winner (game rm) = None)) \<and>
         (\<not> gameActive (game rm) \<longrightarrow>
            length (room_players rm) < 2 \<or> winner (game rm) \<noteq> None \<or>
            left_notice (emitted init evs) c)"
proof -
  have "rooms_all entries_ok st"
    using rooms_all_run[OF assms(1) run_where_any rooms_all_init] entries_ok_step by blast
  from rooms_allD[OF this assms(2)]
  have a: "1 \<le> length (room_players rm)" and b: "length (room_players rm) \<le> 2"
    by (simp_all add: entries_ok_def)
  have c: "run_where reset_in_pair init evs \<longrightarrow>
            (gameActive (game rm) \<longrightarrow> length (room_players rm) = 2)"
  proof
    assume "run_where reset_in_pair init evs"
    from rooms_all_run[OF assms(1) this rooms_all_init] active_pair_step
    have "rooms_all active_pair st" by blast
    from rooms_allD[OF this assms(2)]
    show "gameActive (game rm) \<longrightarrow> length (room_players rm) = 2"
      by (simp add: active_pair_def)
  qed
  have d: "run_where join_by_other init evs \<longrightarrow> distinct (room_players rm)"
  proof
    assume "run_where join_by_other init evs"
    from rooms_all_run[OF assms(1) this rooms_all_init] entries_distinct_step
    have "rooms_all entries_distinct st" by blast
    from rooms_allD[OF this assms(2)]
    show "distinct (room_players rm)"
      by (simp add: entries_distinct_def)
  qed
  have e: "run_where join_unfinished init evs \<longrightarrow>
            (gameActive (game rm) \<longrightarrow> winner (game rm) = None)"
  proof
    assume "run_where join_unfinished init evs"
    from rooms_all_run[OF assms(1) this rooms_all_init] active_open_step
    have "rooms_all active_open st" by blast
    from rooms_allD[OF this assms(2)]
    show "gameActive (game rm) \<longrightarrow> winner (game rm) = None"
      by (simp add: active_open_def)
  qed
  have f: "\<not> gameActive (game rm) \<longrightarrow>
            length (room_players rm) < 2 \<or> winner (game rm) \<noteq> None \<or>
            left_notice (emitted init evs) c"
    using inactive_is_explained[OF assms] by blast
  from a b c d e f show ?thesis by (intro conjI)
qed

text \<open>The theorem at the run \<open>rematch\<close>: a member leaves, another connection joins,
  the game is won and a new game is asked for in the room of two; and at the run
  \<open>parted\<close>, which leaves Alice in a room of one with the game stopped.\<close>

theorem active_needs_two_members_witness:
  "run init rematch = Inr rematch_state \<and> rooms rematch_state code1 = Some rematch_room \<and>
   run_where reset_in_pair init rematch \<and> run_where join_by_other init rematch \<and>
   run_where join_unfinished init rematch \<and>
   gameActive (game rematch_room) \<and> room_players rematch_room = [''a'', ''c''] \<and>
   length (room_players rematch_room) = 2 \<and> distinct (room_players rematch_room) \<and>
   winner (game rematch_room) = None \<and>
   run init parted = Inr alone \<and>
   rooms alone (roomCode alice_data) =
     Some \<lparr>game = started\<lparr>gameActive := False\<rparr>, room_players = [''a'']\<rparr> \<and>
   length (room_players \<lparr>game = started\<lparr>gameActive := False\<rparr>, room_players = [''a'']\<rparr>) = 1 \<and>
   left_notice (emitted init parted) code1"
proof -
  note th = active_needs_two_members[OF run_rematch rooms_rematch]
  have a: "gameActive (game rematch_room)" by (simp add: rematch_room_def)
  have p: "room_players rematch_room = [''a'', ''c'']" by (simp add: rematch_room_def)
  from th have "run_where reset_in_pair init rematch \<longrightarrow>
      (gameActive (game rematch_room) \<longrightarrow> length (room_players rematch_room) = 2)"
    by (elim conjE)
  from this[THEN mp, OF rematch_resets, THEN mp, OF a]
  have l: "length (room_players rematch_room) = 2" .
  from th have "run_where join_by_other init rematch \<longrightarrow> distinct (room_players rematch_room)"
    by (elim conjE)
  from this[THEN mp, OF rematch_joins]
  have d: "distinct (room_players rematch_room)" .
  from th have "run_where join_unfinished init rematch \<longrightarrow>
      (gameActive (game rematch_room) \<longrightarrow> winner (game rematch_room) = None)"
    by (elim conjE)
  from this[THEN mp, OF rematch_unfinished, THEN mp, OF a]
  have w: "winner (game rematch_room) = None" .
  note th2 = active_needs_two_members[OF run_parted rooms_alone]
  from th2 have "1 \<le> length (room_players \<lparr>game = started\<lparr>gameActive := False\<rparr>, room_players = [''a'']\<rparr>)"
    by (elim conjE)
  then have o: "length (room_players \<lparr>game = started\<lparr>gameActive := False\<rparr>, room_players = [''a'']\<rparr>) = 1"
    by simp
  from run_rematch rooms_rematch rematch_resets rematch_joins rematch_unfinished
    a p l d w run_parted rooms_alone o notice_parted
  show ?thesis by (intro conjI)
qed

text \<open>
  Claim C5 as it was stated says, for every run, that the game of a room with one member
  is never active and that a game that has ended is inactive. A reset-game in a room
  with one member leaves its game active; when a game is won, the loser leaves and a
  third connection joins, the game is active with its winner still set; and when the
  connection that created a room joins it, the game is active in a room whose two entries
  are one connection.
\<close>

theorem active_in_lone_room_and_after_win:
  "run init [CreateRoom ''a'' ''Alice'' draw1, ResetGame ''a''] = Inr lobby_reset \<and>
   map_option (\<lambda>rm. (gameActive (game rm), winner (game rm), room_players rm))
       (rooms lobby_reset code1) =
     Some (True, None, [''a'']) \<and>
   (case run init rejoin of
      Inl e \<Rightarrow> None
    | Inr st \<Rightarrow>
        map_option (\<lambda>rm. (gameActive (game rm), winner (game rm), room_players rm))
          (rooms st code1)) =
     Some (True, Some ''X'', [''a'', ''c'']) \<and>
   (case run init self_join of
      Inl e \<Rightarrow> None
    | Inr st \<Rightarrow>
        map_option (\<lambda>rm. (gameActive (game rm), winner (game rm), room_players rm))
          (rooms st code1)) =
     Some (True, None, [''a'', ''a''])"
proof -
  have a: "run init [CreateRoom ''a'' ''Alice'' draw1, ResetGame ''a''] = Inr lobby_reset"
    by (simp add: create_init reset_lobby)
  have b: "map_option (\<lambda>rm. (gameActive (game rm), winner (game rm), room_players rm))
       (rooms lobby_reset code1) = Some (True, None, [''a''])"
    by (simp add: lobby_reset_def reset_def)
  have c: "(case run init rejoin of
      Inl e \<Rightarrow> None
    | Inr st \<Rightarrow>
        map_option (\<lambda>rm. (gameActive (game rm), winner (game rm), room_players rm))
          (rooms st code1)) =
     Some (True, Some ''X'', [''a'', ''c''])"
    by (simp add: rejoin_def server_defs eval_defs)
  have d: "(case run init self_join of
      Inl e \<Rightarrow> None
    | Inr st \<Rightarrow>
        map_option (\<lambda>rm. (gameActive (game rm), winner (game rm), room_players rm))
          (rooms st code1)) =
     Some (True, None, [''a'', ''a''])"
    by (simp add: self_join_def server_defs eval_defs)
  from a b c d show ?thesis by (intro conjI)
qed

subsection \<open>C6: a join that is refused\<close>

text \<open>
  Claim C6, as amended. A join-room for a code that is no key of \<^verbatim>\<open>rooms\<close> emits
  one \<^verbatim>\<open>error\<close> event, to the requesting connection only, whose reason is the
  string \<open>sala_nao_encontrada\<close>; a join-room for a room that has two members or more
  emits one \<^verbatim>\<open>error\<close> event, to the requesting connection only, whose reason is
  \<^verbatim>\<open>'Sala cheia'\<close>. In both cases the handler returns with the state of the server
  (rooms, their games and members, the map of the connections) as it was.
\<close>

theorem joinRoom_refused:
  "(rooms st rc = None \<longrightarrow>
      joinRoom st sid rc pn = Inr (st, [(ToSocket sid, ErrorEvent sala_nao_encontrada)])) \<and>
   (\<forall>rm. rooms st rc = Some rm \<and> 2 \<le> length (room_players rm) \<longrightarrow>
      joinRoom st sid rc pn = Inr (st, [(ToSocket sid, ErrorEvent sala_cheia)])) \<and>
   (\<forall>G. recipients G (ToSocket sid) = {sid})"
  by (simp add: joinRoom_def recipients_def)

text \<open>The theorem at a code nobody drew and at the room of Alice and Bob.\<close>

theorem joinRoom_refused_witness:
  "rooms init ''NOCODE'' = None \<and>
   joinRoom init ''c'' ''NOCODE'' ''Carol'' = Inr (init, [(ToSocket ''c'', ErrorEvent sala_nao_encontrada)]) \<and>
   rooms both code1 = Some \<lparr>game = started, room_players = [''a'', ''b'']\<rparr> \<and>
   joinRoom both ''c'' code1 ''Carol'' = Inr (both, [(ToSocket ''c'', ErrorEvent sala_cheia)])"
proof -
  note th = joinRoom_refused[of init "''NOCODE''" "''c''" "''Carol''"]
  note th2 = joinRoom_refused[of both code1 "''c''" "''Carol''"]
  from th rooms_init have a: "joinRoom init ''c'' ''NOCODE'' ''Carol'' =
      Inr (init, [(ToSocket ''c'', ErrorEvent sala_nao_encontrada)])"
    by blast
  from th2 rooms_both have b: "joinRoom both ''c'' code1 ''Carol'' =
      Inr (both, [(ToSocket ''c'', ErrorEvent sala_cheia)])"
    by simp
  from rooms_init a rooms_both b show ?thesis by (intro conjI)
qed

text \<open>
  Claim C6 as it was stated gives the reasons as \<^verbatim>\<open>room not found\<close> and
  \<^verbatim>\<open>room full\<close>. The strings the code emits are the Portuguese ones.
\<close>

theorem join_errors_are_portuguese:
  "joinRoom init ''c'' ''NOCODE'' ''Carol'' =
     Inr (init, [(ToSocket ''c'', ErrorEvent (''Sala n'' @ [CHR 0xE3] @ ''o encontrada''))]) \<and>
   ''Sala n'' @ [CHR 0xE3] @ ''o encontrada'' \<noteq> ''room not found'' \<and>
   joinRoom both ''c'' code1 ''Carol'' = Inr (both, [(ToSocket ''c'', ErrorEvent ''Sala cheia'')]) \<and>
   ''Sala cheia'' \<noteq> ''room full''"
  by (simp add: joinRoom_def rooms_init rooms_both sala_nao_encontrada_def sala_cheia_def)

subsection \<open>C7: a connection leaves\<close>




subsection \<open>C8: reset\<close>

text \<open>
  Claim C8. For every game, \<^verbatim>\<open>reset\<close> leaves nine empty cells, the turn \<open>X\<close>, the
  game active and \<^verbatim>\<open>winner\<close> \<^verbatim>\<open>null\<close>, and the players as they were.
\<close>

theorem reset_restores:
  "board (reset g) = replicate 9 '''' \<and> currentPlayer (reset g) = ''X'' \<and>
   gameActive (reset g) \<and> winner (reset g) = None \<and> players (reset g) = players g"
  by (simp add: reset_def)

subsection \<open>C9: the length of a room code\<close>

text \<open>
  Claim C9 says that a room code has exactly six upper-case letters or digits for every
  draw. The code takes the characters 2 to 7 of the rendering of the draw, so a code has
  six characters only when the rendering has eight or more: its length is the smaller of
  6 and the number of digits after the point. The characters are upper-case letters or
  digits for every rendering.
\<close>

theorem generateRoomCode_length:
  "length (generateRoomCode r) = min 6 (length r - 2) \<and>
   (rendering r \<longrightarrow> list_all upper_alnum (generateRoomCode r))"
proof -
  have len: "length (generateRoomCode r) = min 6 (length r - 2)"
    by (simp add: generateRoomCode_def toUpperCase_def substring_2_8)
  have "list_all upper_alnum (generateRoomCode r)" if r: "rendering r"
  proof (cases "r = ''0''")
    case True
    then show ?thesis
      by (simp add: generateRoomCode_def toUpperCase_def substring_2_8)
  next
    case False
    with r have "list_all digit36 (drop 2 r)" by (simp add: rendering_def)
    then have "\<forall>c \<in> set (take 6 (drop 2 r)). digit36 c"
      by (auto simp: list_all_iff dest: in_set_takeD)
    then show ?thesis
      by (simp add: generateRoomCode_def toUpperCase_def substring_2_8 list_all_iff
          upper_char_digit36)
  qed
  with len show ?thesis by simp
qed

text \<open>The theorem at the draws \<open>1/2\<close>, rendered \<^verbatim>\<open>0.i\<close>, and 0, rendered
  \<^verbatim>\<open>0\<close>: the codes have one character and none.\<close>

theorem generateRoomCode_length_witness:
  "rendering ''0.i'' \<and> generateRoomCode ''0.i'' = ''I'' \<and> length (generateRoomCode ''0.i'') = 1 \<and>
   rendering ''0'' \<and> generateRoomCode ''0'' = [] \<and> length (generateRoomCode ''0'') = 0"
proof -
  have a: "rendering ''0.i''" by (simp add: rendering_def digit36_def)
  have b: "generateRoomCode ''0.i'' = ''I''"
    by (simp add: generateRoomCode_def toUpperCase_def substring_2_8 upper_char_simps)
  have c: "rendering ''0''" by (simp add: rendering_def)
  have d: "generateRoomCode ''0'' = []"
    by (simp add: generateRoomCode_def toUpperCase_def substring_2_8)
  from generateRoomCode_length[of "''0.i''"] have e: "length (generateRoomCode ''0.i'') = 1"
    by simp
  from generateRoomCode_length[of "''0''"] have f: "length (generateRoomCode ''0'') = 0"
    by simp
  from a b e c d f show ?thesis by (intro conjI)
qed

subsection \<open>C10: an index outside the board\<close>

text \<open>
  Claim C10. On a board of nine cells, \<^verbatim>\<open>makeMove\<close> with an index below 0 or above 8
  returns \<^verbatim>\<open>false\<close> and the game is the one before the call: nothing is written,
  inside or outside the nine cells.
\<close>

theorem makeMove_out_of_range:
  assumes "length (board g) = 9" and "i < 0 \<or> 8 < i"
  shows "makeMove g i pid = Inr (False, g)"
  using assms by (auto simp: makeMove_def board_at_def cell_at_def)

text \<open>The theorem at the indices 9 and -1 on the started game.\<close>

theorem makeMove_out_of_range_witness:
  "length (board started) = 9 \<and> makeMove started 9 ''a'' = Inr (False, started) \<and>
   makeMove started (- 1) ''a'' = Inr (False, started)"
  using makeMove_out_of_range[OF length_board_started, of 9 "''a''"]
    makeMove_out_of_range[OF length_board_started, of "- 1" "''a''"] length_board_started
  by simp

section \<open>Further properties\<close>

text \<open>
  Every game the server reaches from its start, through any events, has nine cells, has
  \<open>X\<close> or \<open>O\<close> as its turn, and has no line of the grid filled by a marker other
  than the one whose turn it is.
\<close>

lemma reachable_games_wf:
  assumes "run init evs = Inr st" and "rooms st c = Some rm"
  shows "length (board (game rm)) = 9 \<and>
         (currentPlayer (game rm) = ''X'' \<or> currentPlayer (game rm) = ''O'') \<and>
         (\<forall>m. wins (board (game rm)) m \<longrightarrow> m = currentPlayer (game rm))"
  using games_wf_run[OF assms(1) games_wf_init] assms(2)
  by (simp add: games_wf_def wf_game_wins)

theorem reachable_games_wf_witness:
  "run init rematch = Inr rematch_state \<and> rooms rematch_state code1 = Some rematch_room \<and>
   length (board (game rematch_room)) = 9 \<and> currentPlayer (game rematch_room) = ''X''"
proof -
  note th = reachable_games_wf[OF run_rematch rooms_rematch]
  from th have l: "length (board (game rematch_room)) = 9" by (elim conjE)
  have c: "currentPlayer (game rematch_room) = ''X''" by (simp add: rematch_room_def)
  from run_rematch rooms_rematch l c show ?thesis by (intro conjI)
qed

text \<open>
  For a socket id that is an own key of \<^verbatim>\<open>players\<close>, \<^verbatim>\<open>makeMove\<close> returns, and
  the game is the one before the call when it returns \<^verbatim>\<open>false\<close>.
\<close>

lemma makeMove_total_for_players:
  assumes "map_of (players g) pid = Some p"
  shows "\<exists>ok g'. makeMove g i pid = Inr (ok, g') \<and> (\<not> ok \<longrightarrow> g' = g)"
  using assms by (auto simp: makeMove_def player_entry_def Let_def)

theorem makeMove_total_for_players_witness:
  "map_of (players started) ''a'' = Some \<lparr>pname = ''Alice'', symbol = ''X'', isHost = True\<rparr> \<and>
   (\<exists>ok g'. makeMove started 4 ''a'' = Inr (ok, g'))"
proof -
  from makeMove_total_for_players[OF map_of_alice, of 4]
  have "\<exists>ok g'. makeMove started 4 ''a'' = Inr (ok, g')" by blast
  with map_of_alice show ?thesis by (intro conjI)
qed

text \<open>
  A make-move event whose call of \<^verbatim>\<open>makeMove\<close> returns \<^verbatim>\<open>false\<close> leaves the
  server as it was and emits nothing.
\<close>

theorem rejected_move_is_silent:
  assumes "playersMap st sid = Some pd" and "rooms st (roomCode pd) = Some rm"
    and "makeMove (game rm) i sid = Inr (False, g)"
  shows "on_makeMove st sid i = Inr (st, [])"
proof -
  from assms(3) have "g = game rm" by (rule makeMove_false_unchanged)
  with assms(2) have "(rooms st)(roomCode pd \<mapsto> rm\<lparr>game := g\<rparr>) = rooms st"
    by (simp add: map_upd_triv)
  with assms show ?thesis
    by (simp add: on_makeMove_def)
qed

theorem rejected_move_is_silent_witness:
  "playersMap both ''b'' = Some bob_data \<and>
   rooms both (roomCode bob_data) = Some \<lparr>game = started, room_players = [''a'', ''b'']\<rparr> \<and>
   makeMove (game \<lparr>game = started, room_players = [''a'', ''b'']\<rparr>) 4 ''b'' = Inr (False, started) \<and>
   on_makeMove both ''b'' 4 = Inr (both, [])"
  using rejected_move_is_silent[OF playersMap_both rooms_both_bob bob_out_of_turn]
    playersMap_both rooms_both_bob bob_out_of_turn
  by (intro conjI)

text \<open>
  When every connection of a run that closed was an entry of the room it was bound to, a
  game without outcome in a room of two entries is active. After a room code was drawn
  twice this need not be: the close of a connection of the replaced room stops the game
  of the new room.
\<close>

lemma open_pair_is_active:
  assumes "run init evs = Inr st" and "run_where leave_by_member init evs"
    and "rooms st c = Some rm"
    and "length (room_players rm) = 2" and "winner (game rm) = None"
  shows "gameActive (game rm)"
proof -
  from rooms_all_run[OF assms(1,2) rooms_all_init] open_pair_active_step
  have "rooms_all open_pair_active st" by blast
  from rooms_allD[OF this assms(3)] assms(4,5) show ?thesis
    by (simp add: open_pair_active_def)
qed

lemma stranger_leaves:
  "(case run init (collision_leave @ [Disconnect ''a'']) of
      Inl e \<Rightarrow> None
    | Inr st \<Rightarrow>
        map_option (\<lambda>rm. (gameActive (game rm), winner (game rm), room_players rm))
          (rooms st code1)) =
     Some (False, None, [''c'', ''d''])"
  by (simp add: collision_leave_def server_defs eval_defs)

text \<open>
  A socket id that is no own key of \<^verbatim>\<open>players\<close> but names a property of
  \<^verbatim>\<open>Object.prototype\<close> reads a value without \<^verbatim>\<open>symbol\<close>: the call returns
  \<^verbatim>\<open>false\<close> and the game is the one before the call.
\<close>

lemma makeMove_inherited_key:
  assumes "map_of (players g) pid = None" and "map_of object_prototype pid = Some n"
  shows "makeMove g i pid = Inr (False, g)"
  using assms by (simp add: makeMove_def player_entry_def)

lemma makeMove_constructor: "makeMove started 0 ''constructor'' = Inr (False, started)"
  by (rule makeMove_inherited_key[where n = "Some ''Object''"])
    (simp_all add: started_def alice_bob_def object_prototype_def)

text \<open>
  \<^verbatim>\<open>Object.keys\<close> lists the keys that are array indices first, in ascending order:
  of two players with the marker \<open>O\<close>, entered under the keys \<^verbatim>\<open>'9'\<close> and then
  \<^verbatim>\<open>'5'\<close>, the one named as the winner is the second.
\<close>

lemma object_keys_order:
  "object_keys [(''b'', u), (''9'', v), (''5'', w), (''07'', x)] = [''5'', ''9'', ''b'', ''07'']"
  by (simp add: object_keys_def array_index_def digit_value_def)

lemma winnerName_by_key_order:
  "winnerName \<lparr>board = replicate 9 '''', currentPlayer = ''O'',
       players = [(''9'', \<lparr>pname = ''Nine'', symbol = ''O'', isHost = False\<rparr>),
                  (''5'', \<lparr>pname = ''Five'', symbol = ''O'', isHost = False\<rparr>)],
       gameActive = False, winner = Some ''O''\<rparr> = Inr ''Five''"
  by (simp add: winnerName_def object_keys_def array_index_def digit_value_def)

text \<open>
  The alternation of the markers is a property of a run of \<^verbatim>\<open>makeMove\<close> calls on
  one game. The join-room handler sets \<open>gameActive\<close> itself: after the run
  \<open>rejoin\<close>, where \<open>X\<close> made the last move and won, the next accepted move is again
  a move of \<open>X\<close>.
\<close>

lemma winner_moves_again_after_rejoin:
  "(case run init (rejoin @ [MakeMove ''a'' 5]) of
      Inl e \<Rightarrow> None
    | Inr st \<Rightarrow> map_option (\<lambda>rm. (board (game rm), currentPlayer (game rm))) (rooms st code1)) =
   Some ([''X'', ''X'', ''X'', ''O'', ''O'', ''X'', '''', '''', ''''], ''X'')"
  by (simp add: rejoin_def server_defs eval_defs)

end
